theory Spec2Isabelle
  imports Complex_Main "HOL-Library.Word" "HOL-Library.Log_Nat"
begin

unbundle bit_operations_syntax

section \<open>Go integers\<close>

text \<open>
  Go's \<open>int\<close> is a 64-bit two's complement integer on every platform the tool is built
  for. It is modelled by \<open>int\<close> with the wrap-around written out: every arithmetic
  operation of the source goes through \<open>wrap64\<close>. Division truncates towards zero.
  No call site of the source divides by zero (the divisors are the constant 2 and a
  column count that is at least 1).
\<close>

definition wrap64 :: "int \<Rightarrow> int" where
  "wrap64 x = signed_take_bit 63 x"

definition go_add :: "int \<Rightarrow> int \<Rightarrow> int" where
  "go_add a b = wrap64 (a + b)"

definition go_sub :: "int \<Rightarrow> int \<Rightarrow> int" where
  "go_sub a b = wrap64 (a - b)"

definition go_mul :: "int \<Rightarrow> int \<Rightarrow> int" where
  "go_mul a b = wrap64 (a * b)"

definition go_quot :: "int \<Rightarrow> int \<Rightarrow> int" where
  "go_quot a b = wrap64 (sgn a * sgn b * (\<bar>a\<bar> div \<bar>b\<bar>))"

definition go_rem :: "int \<Rightarrow> int \<Rightarrow> int" where
  "go_rem a b = sgn a * (\<bar>a\<bar> mod \<bar>b\<bar>)"

section \<open>Geometry and rasters (package image)\<close>

record point =
  X :: int
  Y :: int

record rectangle =
  Min_pt :: point
  Max_pt :: point

definition Pt :: "int \<Rightarrow> int \<Rightarrow> point" where
  "Pt x y = \<lparr>X = x, Y = y\<rparr>"

text \<open>\<open>image.Rect\<close> swaps the coordinates of an axis when they come in the wrong order.\<close>

definition Rect :: "int \<Rightarrow> int \<Rightarrow> int \<Rightarrow> int \<Rightarrow> rectangle" where
  "Rect x0 y0 x1 y1 =
     (let (xa, xb) = (if x0 > x1 then (x1, x0) else (x0, x1));
          (ya, yb) = (if y0 > y1 then (y1, y0) else (y0, y1))
      in \<lparr>Min_pt = Pt xa ya, Max_pt = Pt xb yb\<rparr>)"

definition Dx :: "rectangle \<Rightarrow> int" where
  "Dx r = go_sub (X (Max_pt r)) (X (Min_pt r))"

definition Dy :: "rectangle \<Rightarrow> int" where
  "Dy r = go_sub (Y (Max_pt r)) (Y (Min_pt r))"

definition pt_in :: "int \<Rightarrow> int \<Rightarrow> rectangle \<Rightarrow> bool" where
  "pt_in x y r \<longleftrightarrow>
     X (Min_pt r) \<le> x \<and> x < X (Max_pt r) \<and> Y (Min_pt r) \<le> y \<and> y < Y (Max_pt r)"

text \<open>
  A pixel in the non-premultiplied 8-bit form of \<open>color.NRGBA\<close>: the form the PNG decoder
  produces for an image with an alpha channel, and the form of the rasters the tool
  builds (\<open>image.NewNRGBA\<close>). A source without an alpha channel is the case \<open>A = 255\<close>
  of every pixel.
\<close>

record nrgba =
  R :: "8 word"
  G :: "8 word"
  B :: "8 word"
  A :: "8 word"

definition NRGBA :: "8 word \<Rightarrow> 8 word \<Rightarrow> 8 word \<Rightarrow> 8 word \<Rightarrow> nrgba" where
  "NRGBA r g b a = \<lparr>R = r, G = g, B = b, A = a\<rparr>"

record raster =
  Bounds :: rectangle
  Pix :: "int \<Rightarrow> int \<Rightarrow> nrgba"

text \<open>\<open>NRGBAAt\<close>: the zero colour outside the bounds.\<close>

definition At :: "raster \<Rightarrow> int \<Rightarrow> int \<Rightarrow> nrgba" where
  "At img x y = (if pt_in x y (Bounds img) then Pix img x y else NRGBA 0 0 0 0)"

definition NewNRGBA :: "rectangle \<Rightarrow> raster" where
  "NewNRGBA r = \<lparr>Bounds = r, Pix = (\<lambda>x y. NRGBA 0 0 0 0)\<rparr>"

text \<open>\<open>SetNRGBA\<close> ignores a point outside the bounds.\<close>

definition SetNRGBA :: "raster \<Rightarrow> int \<Rightarrow> int \<Rightarrow> nrgba \<Rightarrow> raster" where
  "SetNRGBA img x y c =
     (if pt_in x y (Bounds img)
      then img\<lparr>Pix := (\<lambda>x' y'. if x' = x \<and> y' = y then c else Pix img x' y')\<rparr>
      else img)"

text \<open>
  The canvas of a composition: its rectangle, the colour \<open>fillBackground\<close> filled it
  with, and the \<open>draw.Draw\<close> calls made on it, in the order they were made, each with its
  destination rectangle, its source raster and the source point.
\<close>

record canvas =
  CRect :: rectangle
  CFill :: "nrgba option"
  CDraws :: "(rectangle \<times> raster \<times> point) list"

definition NewCanvas :: "rectangle \<Rightarrow> canvas" where
  "NewCanvas r = \<lparr>CRect = r, CFill = None, CDraws = []\<rparr>"

definition draw_Over :: "canvas \<Rightarrow> rectangle \<Rightarrow> raster \<Rightarrow> point \<Rightarrow> canvas" where
  "draw_Over c r src sp = c\<lparr>CDraws := CDraws c @ [(r, src, sp)]\<rparr>"

section \<open>Floating point (float64)\<close>

text \<open>
  A finite \<open>float64\<close> is a rational number. \<open>float64\<close> rounds a rational to the nearest
  number with a 53-bit significand, ties to the even significand, as IEEE 754 binary64
  does in its normal range; every arithmetic operation of the source on \<open>float64\<close> is the
  exact operation followed by this rounding. The magnitudes that occur here (pixel
  counts, colour distances, percentages) are far inside the normal range, so overflow
  and subnormal numbers are not modelled. \<open>bexp x\<close> is the binary exponent of a positive
  \<open>x\<close>, the \<open>e\<close> with \<open>2 ^ e \<le> x < 2 ^ (e + 1)\<close>.
\<close>

definition bexp :: "rat \<Rightarrow> int" where
  "bexp x =
     (let (p, q) = quotient_of x; d = bitlen p - bitlen q
      in if 2 powi d \<le> x then d else d - 1)"

definition round_half_even :: "rat \<Rightarrow> int" where
  "round_half_even x =
     (let f = \<lfloor>x\<rfloor>; d = x - of_int f
      in if d < 1 / 2 then f
         else if 1 / 2 < d then f + 1
         else if even f then f else f + 1)"

definition float64 :: "rat \<Rightarrow> rat" where
  "float64 x =
     (if x = 0 then 0
      else let u = 2 powi (bexp \<bar>x\<bar> - 52)
           in sgn x * (of_int (round_half_even (\<bar>x\<bar> / u)) * u))"

definition f_of_int :: "int \<Rightarrow> rat" where
  "f_of_int n = float64 (of_int n)"

definition f_add :: "rat \<Rightarrow> rat \<Rightarrow> rat" where
  "f_add a b = float64 (a + b)"

definition f_sub :: "rat \<Rightarrow> rat \<Rightarrow> rat" where
  "f_sub a b = float64 (a - b)"

definition f_mul :: "rat \<Rightarrow> rat \<Rightarrow> rat" where
  "f_mul a b = float64 (a * b)"

definition f_div :: "rat \<Rightarrow> rat \<Rightarrow> rat" where
  "f_div a b = float64 (a / b)"

text \<open>
  The conversion \<open>int(f)\<close> drops the fraction (truncation towards zero). Its result for a
  value outside the range of \<open>int\<close> depends on the platform and does not occur here.
\<close>

definition int_of_float :: "rat \<Rightarrow> int" where
  "int_of_float x = (if 0 \<le> x then \<lfloor>x\<rfloor> else \<lceil>x\<rceil>)"

section \<open>Library functions taken as parameters\<close>

text \<open>
  The functions of the Go standard library and of the imaging library whose bodies the
  program does not contain and whose results the properties below do not depend on are
  fields of one record: the Unicode case mapping, \<open>filepath.Dir\<close> and \<open>filepath.Ext\<close>,
  \<open>strconv.ParseFloat\<close> (\<open>None\<close> is its error; the values \<open>NaN\<close> and \<open>Inf\<close> it can also
  return are outside this model of \<open>float64\<close>), the operations of the imaging library, and
  \<open>draw_result\<close>, the pixels that the \<open>draw.Draw\<close> calls recorded in a canvas produce. So
  are the outcomes of the operating system calls: whether \<open>os.MkdirAll\<close> and \<open>os.Create\<close>
  succeed on a path, whether the bytes of an encoded image can all be written to it,
  and how \<open>imaging.Save\<close> ends. Every function of the program that reaches one of them
  takes the record as its first argument.
\<close>

datatype save_outcome = Saved | UnknownFormat | CreateError | EncodeError

record lib =
  unicode_ToLower :: "string \<Rightarrow> string"
  path_Dir :: "string \<Rightarrow> string"
  path_Ext :: "string \<Rightarrow> string"
  ParseFloat :: "string \<Rightarrow> rat option"
  imaging_Crop :: "raster \<Rightarrow> rectangle \<Rightarrow> raster"
  imaging_Resize :: "raster \<Rightarrow> int \<Rightarrow> int \<Rightarrow> raster"
  imaging_Fit :: "raster \<Rightarrow> int \<Rightarrow> int \<Rightarrow> raster"
  imaging_Fill :: "raster \<Rightarrow> int \<Rightarrow> int \<Rightarrow> raster"
  imaging_Rotate :: "raster \<Rightarrow> rat \<Rightarrow> raster"
  imaging_FlipV :: "raster \<Rightarrow> raster"
  imaging_FlipH :: "raster \<Rightarrow> raster"
  draw_result :: "canvas \<Rightarrow> raster"
  MkdirAll_ok :: "string \<Rightarrow> bool"
  Create_ok :: "string \<Rightarrow> bool"
  Write_ok :: "string \<Rightarrow> bool"
  Save_outcome :: "string \<Rightarrow> save_outcome"

text \<open>
  \<open>strings.ToLower\<close>: a string of ASCII bytes has its letters \<open>A\<close> to \<open>Z\<close> replaced by
  \<open>a\<close> to \<open>z\<close>; any other string goes through the Unicode case mapping, which is a
  parameter.
\<close>

definition ascii_lower :: "char \<Rightarrow> char" where
  "ascii_lower c =
     (let n = of_char c :: nat in if 65 \<le> n \<and> n \<le> 90 then char_of (n + 32) else c)"

definition ToLower :: "lib \<Rightarrow> string \<Rightarrow> string" where
  "ToLower L s =
     (if list_all (\<lambda>c. (of_char c :: nat) < 128) s then map ascii_lower s
      else unicode_ToLower L s)"

text \<open>A raster of one colour with its bounds at the origin, as a decoder returns it.\<close>

definition solid :: "int \<Rightarrow> int \<Rightarrow> nrgba \<Rightarrow> raster" where
  "solid w h c = \<lparr>Bounds = Rect 0 0 w h, Pix = (\<lambda>x y. c)\<rparr>"

section \<open>Colours (transparency.go)\<close>

text \<open>
  \<open>color.NRGBA.RGBA\<close> of the standard library: the alpha-premultiplied 16-bit channels
  of a non-premultiplied 8-bit colour, computed on \<open>uint32\<close>:
  \<^verbatim>\<open>r = uint32(c.R); r |= r << 8; r *= uint32(c.A); r /= 0xff\<close> (likewise g and b) and
  \<^verbatim>\<open>a = uint32(c.A); a |= a << 8\<close>.
\<close>

definition premul :: "8 word \<Rightarrow> 8 word \<Rightarrow> 32 word" where
  "premul c a = (let r = (ucast c :: 32 word); r1 = r OR push_bit 8 r; r2 = r1 * ucast a
                 in r2 div 0xff)"

definition NRGBA_RGBA :: "nrgba \<Rightarrow> 32 word \<times> 32 word \<times> 32 word \<times> 32 word" where
  "NRGBA_RGBA c =
     (let a = (ucast (A c) :: 32 word)
      in (premul (R c) (A c), premul (G c) (A c), premul (B c) (A c), a OR push_bit 8 a))"

datatype rgba = RGBA (cR: "8 word") (cG: "8 word") (cB: "8 word") (cA: "8 word")

datatype color_error = HexFormat | HexSyntax

definition hex_digit :: "char \<Rightarrow> nat option" where
  "hex_digit c =
     (let n = of_char c :: nat
      in if 48 \<le> n \<and> n \<le> 57 then Some (n - 48)
         else if 97 \<le> n \<and> n \<le> 102 then Some (n - 97 + 10)
         else if 65 \<le> n \<and> n \<le> 70 then Some (n - 65 + 10)
         else None)"

text \<open>\<open>strconv.ParseUint(s, 16, 8)\<close> on the two-byte strings \<open>parseColor\<close> passes to it.\<close>

definition ParseUint_16_8 :: "string \<Rightarrow> color_error + 8 word" where
  "ParseUint_16_8 s =
     (case s of
        [c1, c2] \<Rightarrow>
          (case (hex_digit c1, hex_digit c2) of
             (Some h, Some l) \<Rightarrow> Inr (of_nat (16 * h + l))
           | _ \<Rightarrow> Inl HexSyntax)
      | _ \<Rightarrow> Inl HexSyntax)"

definition HasPrefix :: "string \<Rightarrow> string \<Rightarrow> bool" where
  "HasPrefix s p \<longleftrightarrow> take (length p) s = p"

definition HasSuffix :: "string \<Rightarrow> string \<Rightarrow> bool" where
  "HasSuffix s p \<longleftrightarrow> length p \<le> length s \<and> drop (length s - length p) s = p"

definition TrimPrefix :: "string \<Rightarrow> string \<Rightarrow> string" where
  "TrimPrefix s p = (if HasPrefix s p then drop (length p) s else s)"

definition TrimSuffix :: "string \<Rightarrow> string \<Rightarrow> string" where
  "TrimSuffix s p = (if HasSuffix s p then take (length s - length p) s else s)"

definition parseColor :: "lib \<Rightarrow> string \<Rightarrow> color_error + rgba" where
  "parseColor L colorStr =
     (let l = ToLower L colorStr
      in if l = ''white'' then Inr (RGBA 255 255 255 255)
         else if l = ''black'' then Inr (RGBA 0 0 0 255)
         else
           let s = (if HasPrefix colorStr ''#'' then drop 1 colorStr else colorStr)
           in if length s \<noteq> 6 then Inl HexFormat
              else case ParseUint_16_8 (take 2 s) of
                     Inl e \<Rightarrow> Inl e
                   | Inr r \<Rightarrow>
                      (case ParseUint_16_8 (take 2 (drop 2 s)) of
                         Inl e \<Rightarrow> Inl e
                       | Inr g \<Rightarrow>
                          (case ParseUint_16_8 (take 2 (drop 4 s)) of
                             Inl e \<Rightarrow> Inl e
                           | Inr b \<Rightarrow> Inr (RGBA r g b 255))))"

definition colorDistance :: "8 word \<Rightarrow> 8 word \<Rightarrow> 8 word \<Rightarrow> rgba \<Rightarrow> rat" where
  "colorDistance r g b target =
     (let dr = f_sub (f_of_int (uint r)) (f_of_int (uint (cR target)));
          dg = f_sub (f_of_int (uint g)) (f_of_int (uint (cG target)));
          db = f_sub (f_of_int (uint b)) (f_of_int (uint (cB target)))
      in f_div (f_add (f_add (f_mul dr dr) (f_mul dg dg)) (f_mul db db)) 3)"

section \<open>Composition layouts (combine.go)\<close>

record CombineOptions =
  Direction :: string
  Gap :: int
  Columns :: int
  Align :: string
  Background :: string

definition calculateAlignment :: "int \<Rightarrow> int \<Rightarrow> string \<Rightarrow> int" where
  "calculateAlignment containerSize itemSize align =
     (if align = ''start'' then 0
      else if align = ''end'' then go_sub containerSize itemSize
      else if align = ''center'' \<or> align = '''' then go_quot (go_sub containerSize itemSize) 2
      else go_quot (go_sub containerSize itemSize) 2)"

definition fillBackground :: "lib \<Rightarrow> canvas \<Rightarrow> string \<Rightarrow> canvas" where
  "fillBackground L c bg =
     (let l = ToLower L bg;
          bgColor =
            (if l = ''transparent'' \<or> l = '''' then NRGBA 0 0 0 0
             else if l = ''white'' then NRGBA 255 255 255 255
             else if l = ''black'' then NRGBA 0 0 0 255
             else case parseColor L bg of
                    Inr col \<Rightarrow> NRGBA (cR col) (cG col) (cB col) (cA col)
                  | Inl e \<Rightarrow> NRGBA 0 0 0 0)
      in c\<lparr>CFill := Some bgColor, CDraws := []\<rparr>)"

text \<open>
  The two loops of \<open>combineHorizontal\<close>. The first runs over the images with their index
  and accumulates the total width and the maximum height; the second draws each image
  and advances \<open>x\<close>. \<open>n\<close> is \<open>len(images)\<close>.
\<close>

fun hsize_loop :: "int \<Rightarrow> raster list \<Rightarrow> int \<Rightarrow> int \<times> int \<Rightarrow> int \<times> int" where
  "hsize_loop gap [] i (totalWidth, maxHeight) = (totalWidth, maxHeight)"
| "hsize_loop gap (img # rest) i (totalWidth, maxHeight) =
     (let bounds = Bounds img;
          tw1 = go_add totalWidth (Dx bounds);
          mh1 = (if Dy bounds > maxHeight then Dy bounds else maxHeight);
          tw2 = (if i > 0 then go_add tw1 gap else tw1)
      in hsize_loop gap rest (i + 1) (tw2, mh1))"

fun hdraw_loop ::
  "CombineOptions \<Rightarrow> int \<Rightarrow> int \<Rightarrow> raster list \<Rightarrow> int \<Rightarrow> int \<Rightarrow> canvas \<Rightarrow> canvas" where
  "hdraw_loop opts maxHeight n [] i x c = c"
| "hdraw_loop opts maxHeight n (img # rest) i x c =
     (let bounds = Bounds img;
          y = calculateAlignment maxHeight (Dy bounds) (Align opts);
          c1 = draw_Over c (Rect x y (go_add x (Dx bounds)) (go_add y (Dy bounds))) img
                 (Min_pt bounds);
          x1 = go_add x (Dx bounds);
          x2 = (if i < n - 1 then go_add x1 (Gap opts) else x1)
      in hdraw_loop opts maxHeight n rest (i + 1) x2 c1)"

definition combineHorizontal :: "lib \<Rightarrow> raster list \<Rightarrow> CombineOptions \<Rightarrow> canvas" where
  "combineHorizontal L images opts =
     (let (totalWidth, maxHeight) = hsize_loop (Gap opts) images 0 (0, 0);
          c = fillBackground L (NewCanvas (Rect 0 0 totalWidth maxHeight)) (Background opts)
      in hdraw_loop opts maxHeight (int (length images)) images 0 0 c)"

fun vsize_loop :: "int \<Rightarrow> raster list \<Rightarrow> int \<Rightarrow> int \<times> int \<Rightarrow> int \<times> int" where
  "vsize_loop gap [] i (maxWidth, totalHeight) = (maxWidth, totalHeight)"
| "vsize_loop gap (img # rest) i (maxWidth, totalHeight) =
     (let bounds = Bounds img;
          mw1 = (if Dx bounds > maxWidth then Dx bounds else maxWidth);
          th1 = go_add totalHeight (Dy bounds);
          th2 = (if i > 0 then go_add th1 gap else th1)
      in vsize_loop gap rest (i + 1) (mw1, th2))"

fun vdraw_loop ::
  "CombineOptions \<Rightarrow> int \<Rightarrow> int \<Rightarrow> raster list \<Rightarrow> int \<Rightarrow> int \<Rightarrow> canvas \<Rightarrow> canvas" where
  "vdraw_loop opts maxWidth n [] i y c = c"
| "vdraw_loop opts maxWidth n (img # rest) i y c =
     (let bounds = Bounds img;
          x = calculateAlignment maxWidth (Dx bounds) (Align opts);
          c1 = draw_Over c (Rect x y (go_add x (Dx bounds)) (go_add y (Dy bounds))) img
                 (Min_pt bounds);
          y1 = go_add y (Dy bounds);
          y2 = (if i < n - 1 then go_add y1 (Gap opts) else y1)
      in vdraw_loop opts maxWidth n rest (i + 1) y2 c1)"

definition combineVertical :: "lib \<Rightarrow> raster list \<Rightarrow> CombineOptions \<Rightarrow> canvas" where
  "combineVertical L images opts =
     (let (maxWidth, totalHeight) = vsize_loop (Gap opts) images 0 (0, 0);
          c = fillBackground L (NewCanvas (Rect 0 0 maxWidth totalHeight)) (Background opts)
      in vdraw_loop opts maxWidth (int (length images)) images 0 0 c)"

text \<open>The column count of \<open>combineGrid\<close>, of \<open>n = len(images)\<close> images.\<close>

definition grid_cols :: "int \<Rightarrow> int \<Rightarrow> int" where
  "grid_cols columns n =
     (if columns \<le> 0
      then let cols = int_of_float (f_add (f_mul (f_of_int n) (1 / 2)) (1 / 2))
           in if cols < 1 then 1 else cols
      else columns)"

fun cell_loop :: "raster list \<Rightarrow> int \<times> int \<Rightarrow> int \<times> int" where
  "cell_loop [] (maxCellWidth, maxCellHeight) = (maxCellWidth, maxCellHeight)"
| "cell_loop (img # rest) (maxCellWidth, maxCellHeight) =
     (let bounds = Bounds img;
          w1 = (if Dx bounds > maxCellWidth then Dx bounds else maxCellWidth);
          h1 = (if Dy bounds > maxCellHeight then Dy bounds else maxCellHeight)
      in cell_loop rest (w1, h1))"

fun gdraw_loop ::
  "int \<Rightarrow> int \<Rightarrow> int \<Rightarrow> int \<Rightarrow> raster list \<Rightarrow> int \<Rightarrow> canvas \<Rightarrow> canvas" where
  "gdraw_loop gap cols maxCellWidth maxCellHeight [] i c = c"
| "gdraw_loop gap cols maxCellWidth maxCellHeight (img # rest) i c =
     (let row = go_quot i cols;
          col = go_rem i cols;
          bounds = Bounds img;
          cellX = go_mul col (go_add maxCellWidth gap);
          cellY = go_mul row (go_add maxCellHeight gap);
          x = go_add cellX (go_quot (go_sub maxCellWidth (Dx bounds)) 2);
          y = go_add cellY (go_quot (go_sub maxCellHeight (Dy bounds)) 2);
          c1 = draw_Over c (Rect x y (go_add x (Dx bounds)) (go_add y (Dy bounds))) img
                 (Min_pt bounds)
      in gdraw_loop gap cols maxCellWidth maxCellHeight rest (i + 1) c1)"

definition combineGrid :: "lib \<Rightarrow> raster list \<Rightarrow> CombineOptions \<Rightarrow> canvas" where
  "combineGrid L images opts =
     (let n = int (length images);
          cols = grid_cols (Columns opts) n;
          rows = go_quot (go_sub (go_add n cols) 1) cols;
          (maxCellWidth, maxCellHeight) = cell_loop images (0, 0);
          totalWidth = go_add (go_mul cols maxCellWidth) (go_mul (go_sub cols 1) (Gap opts));
          totalHeight = go_add (go_mul rows maxCellHeight) (go_mul (go_sub rows 1) (Gap opts));
          c = fillBackground L (NewCanvas (Rect 0 0 totalWidth totalHeight)) (Background opts)
      in gdraw_loop (Gap opts) cols maxCellWidth maxCellHeight images 0 c)"

section \<open>Files and errors\<close>

text \<open>
  The file system as the program sees it: what a path holds, and the directories the
  program has created. A file holds a decodable image, or it has been created and does
  not hold a complete image (\<open>Truncated\<close>: empty, or cut off by a failed write), or it
  holds something that is not an image.
\<close>

datatype file_content = ImageFile raster | Truncated | NotAnImage

record world =
  Files :: "string \<Rightarrow> file_content option"
  Dirs :: "string set"

datatype atoi_error = ErrSyntax | ErrRange

datatype crop_error =
    CropFormat
  | InvalidLeft atoi_error
  | InvalidTop atoi_error
  | InvalidCropWidth atoi_error
  | InvalidCropHeight atoi_error

datatype resize_error =
    InvalidPercentage
  | SizeFormat
  | InvalidWidth atoi_error
  | InvalidHeight atoi_error
  | InvalidFit string

datatype error =
    NotEnoughImages
  | OpenFailed string
  | InvalidDirection string
  | InvalidColor color_error
  | CropFailed crop_error
  | ResizeFailed resize_error
  | MkdirFailed
  | CreateFailed
  | EncodeFailed
  | SaveFailed save_outcome

text \<open>\<open>imaging.Open\<close>: the image a path holds, an error for any other path.\<close>

definition imaging_Open :: "world \<Rightarrow> string \<Rightarrow> error + raster" where
  "imaging_Open w path =
     (case Files w path of Some (ImageFile img) \<Rightarrow> Inr img | _ \<Rightarrow> Inl (OpenFailed path))"

definition os_MkdirAll :: "lib \<Rightarrow> world \<Rightarrow> string \<Rightarrow> error + world" where
  "os_MkdirAll L w dir =
     (if MkdirAll_ok L dir then Inr (w\<lparr>Dirs := insert dir (Dirs w)\<rparr>) else Inl MkdirFailed)"

text \<open>\<open>os.Create\<close> makes the file, or empties the one that is there.\<close>

definition os_Create :: "lib \<Rightarrow> world \<Rightarrow> string \<Rightarrow> error + world" where
  "os_Create L w path =
     (if Create_ok L path then Inr (w\<lparr>Files := (Files w)(path \<mapsto> Truncated)\<rparr>)
      else Inl CreateFailed)"

text \<open>
  \<open>png.Encode\<close> on the file \<open>os.Create\<close> returned: it refuses an image whose width or
  height is not between 1 and \<open>2 ^ 32 - 1\<close> before it writes anything, and it fails when
  a write does; in both cases the file stays as it is, created and incomplete.
\<close>

definition png_Encode :: "lib \<Rightarrow> world \<Rightarrow> string \<Rightarrow> raster \<Rightarrow> error option \<times> world" where
  "png_Encode L w path img =
     (let mw = Dx (Bounds img); mh = Dy (Bounds img)
      in if mw \<le> 0 \<or> mh \<le> 0 \<or> 2 ^ 32 \<le> mw \<or> 2 ^ 32 \<le> mh then (Some EncodeFailed, w)
         else if Write_ok L path
              then (None, w\<lparr>Files := (Files w)(path \<mapsto> ImageFile img)\<rparr>)
              else (Some EncodeFailed, w))"

text \<open>
  \<open>imaging.Save\<close>: it derives the format from the file name, creates the file and
  encodes into it.
\<close>

definition imaging_Save :: "lib \<Rightarrow> world \<Rightarrow> raster \<Rightarrow> string \<Rightarrow> error option \<times> world" where
  "imaging_Save L w img path =
     (case Save_outcome L path of
        Saved \<Rightarrow> (None, w\<lparr>Files := (Files w)(path \<mapsto> ImageFile img)\<rparr>)
      | UnknownFormat \<Rightarrow> (Some (SaveFailed UnknownFormat), w)
      | CreateError \<Rightarrow> (Some (SaveFailed CreateError), w)
      | EncodeError \<Rightarrow>
          (Some (SaveFailed EncodeError), w\<lparr>Files := (Files w)(path \<mapsto> Truncated)\<rparr>))"

section \<open>Composition (combine.go)\<close>

record CombineResult =
  Width :: int
  Height :: int
  Format :: string

fun open_loop :: "world \<Rightarrow> string list \<Rightarrow> error + raster list" where
  "open_loop w [] = Inr []"
| "open_loop w (path # paths) =
     (case imaging_Open w path of
        Inl e \<Rightarrow> Inl e
      | Inr img \<Rightarrow>
          (case open_loop w paths of Inl e \<Rightarrow> Inl e | Inr images \<Rightarrow> Inr (img # images)))"

text \<open>
  \<open>CombineImages\<close>. The options are a pointer in the source: \<open>None\<close> is \<open>nil\<close>. The result
  is the error or the \<open>CombineResult\<close>, and the file system after the call.
\<close>

definition CombineImages ::
  "lib \<Rightarrow> world \<Rightarrow> string list \<Rightarrow> string \<Rightarrow> CombineOptions option
     \<Rightarrow> (error + CombineResult) \<times> world" where
  "CombineImages L w inputPaths outputPath opts0 =
     (if length inputPaths < 2 then (Inl NotEnoughImages, w)
      else
        let opts = (case opts0 of
                      None \<Rightarrow> \<lparr>Direction = ''horizontal'', Gap = 0, Columns = 0,
                                Align = ''center'', Background = ''transparent''\<rparr>
                    | Some opts \<Rightarrow> opts)
        in case open_loop w inputPaths of
             Inl e \<Rightarrow> (Inl e, w)
           | Inr images \<Rightarrow>
              (case (if Direction opts = ''horizontal'' then Inr (combineHorizontal L images opts)
                     else if Direction opts = ''vertical'' then Inr (combineVertical L images opts)
                     else if Direction opts = ''grid'' then Inr (combineGrid L images opts)
                     else Inl (InvalidDirection (Direction opts))) of
                 Inl e \<Rightarrow> (Inl e, w)
               | Inr result \<Rightarrow>
                  (let dir = path_Dir L outputPath
                   in case (if dir \<noteq> [] \<and> dir \<noteq> ''.'' then os_MkdirAll L w dir else Inr w) of
                        Inl e \<Rightarrow> (Inl e, w)
                      | Inr w1 \<Rightarrow>
                         (case os_Create L w1 outputPath of
                            Inl e \<Rightarrow> (Inl e, w1)
                          | Inr w2 \<Rightarrow>
                             (case png_Encode L w2 outputPath (draw_result L result) of
                                (Some e, w3) \<Rightarrow> (Inl e, w3)
                              | (None, w3) \<Rightarrow>
                                 (Inr \<lparr>Width = Dx (CRect result), Height = Dy (CRect result),
                                       Format = ''png''\<rparr>, w3))))))"

section \<open>Chroma key (transparency.go)\<close>

record TransparencyOptions =
  Color :: string
  Tolerance :: int

record TransparencyResult =
  TWidth :: int
  THeight :: int

text \<open>The body of the pixel loop of \<open>MakeTransparent\<close>, at the point \<open>(x, y)\<close>.\<close>

definition pixel_step :: "raster \<Rightarrow> rgba \<Rightarrow> rat \<Rightarrow> int \<Rightarrow> int \<Rightarrow> raster \<Rightarrow> raster" where
  "pixel_step src targetColor tolerance y x result =
     (let pixel = At src x y;
          (r, g, b, a) = NRGBA_RGBA pixel;
          r8 = (ucast (drop_bit 8 r) :: 8 word);
          g8 = (ucast (drop_bit 8 g) :: 8 word);
          b8 = (ucast (drop_bit 8 b) :: 8 word);
          a8 = (ucast (drop_bit 8 a) :: 8 word)
      in if colorDistance r8 g8 b8 targetColor \<le> tolerance
         then SetNRGBA result x y (NRGBA r8 g8 b8 0)
         else SetNRGBA result x y (NRGBA r8 g8 b8 a8))"

text \<open>
  The two nested loops, \<open>y\<close> from \<open>Min.Y\<close> up to \<open>Max.Y - 1\<close> and \<open>x\<close> from \<open>Min.X\<close> up to
  \<open>Max.X - 1\<close>.
\<close>

definition pixel_loop :: "raster \<Rightarrow> rgba \<Rightarrow> rat \<Rightarrow> raster \<Rightarrow> raster" where
  "pixel_loop src targetColor tolerance result =
     (let bounds = Bounds src
      in fold (\<lambda>y res. fold (pixel_step src targetColor tolerance y)
                          [X (Min_pt bounds) .. X (Max_pt bounds) - 1] res)
           [Y (Min_pt bounds) .. Y (Max_pt bounds) - 1] result)"

definition tolerance_threshold :: "int \<Rightarrow> rat" where
  "tolerance_threshold t = f_mul (f_div (f_of_int t) 100) 255"

definition MakeTransparent ::
  "lib \<Rightarrow> world \<Rightarrow> string \<Rightarrow> string \<Rightarrow> TransparencyOptions option
     \<Rightarrow> (error + TransparencyResult) \<times> world" where
  "MakeTransparent L w inputPath outputPath opts0 =
     (let opts = (case opts0 of
                    None \<Rightarrow> \<lparr>Color = ''white'', Tolerance = 10\<rparr>
                  | Some opts \<Rightarrow> opts)
      in case parseColor L (Color opts) of
           Inl e \<Rightarrow> (Inl (InvalidColor e), w)
         | Inr targetColor \<Rightarrow>
            (case imaging_Open w inputPath of
               Inl e \<Rightarrow> (Inl e, w)
             | Inr src \<Rightarrow>
                (let bounds = Bounds src;
                     width = Dx bounds;
                     height = Dy bounds;
                     tolerance = tolerance_threshold (Tolerance opts);
                     result = pixel_loop src targetColor tolerance (NewNRGBA bounds);
                     dir = path_Dir L outputPath
                 in case (if dir \<noteq> [] \<and> dir \<noteq> ''.'' then os_MkdirAll L w dir else Inr w) of
                      Inl e \<Rightarrow> (Inl e, w)
                    | Inr w1 \<Rightarrow>
                       (case os_Create L w1 outputPath of
                          Inl e \<Rightarrow> (Inl e, w1)
                        | Inr w2 \<Rightarrow>
                           (case png_Encode L w2 outputPath result of
                              (Some e, w3) \<Rightarrow> (Inl e, w3)
                            | (None, w3) \<Rightarrow>
                               (Inr \<lparr>TWidth = width, THeight = height\<rparr>, w3))))))"

section \<open>Strings and numbers (packages strings and strconv)\<close>

text \<open>\<open>strings.Split(s, sep)\<close> for a separator of one byte: never empty, one more part than
  there are separators.\<close>

fun Split :: "string \<Rightarrow> char \<Rightarrow> string list" where
  "Split [] sep = [[]]"
| "Split (c # cs) sep =
     (if c = sep then [] # Split cs sep
      else case Split cs sep of
             p # ps \<Rightarrow> (c # p) # ps
           | [] \<Rightarrow> [[c]])"

text \<open>
  \<open>strings.TrimSpace\<close> removes the leading and the trailing white space of a string of
  UTF-8 bytes: the six ASCII characters tab, line feed, vertical tab, form feed,
  carriage return and space, and the code points U+0085, U+00A0, U+1680, U+2000 to
  U+200A, U+2028, U+2029, U+202F, U+205F and U+3000 in their UTF-8 encoding. A byte that
  starts no such encoding ends the trimming on its side.
\<close>

definition space_encodings :: "string list" where
  "space_encodings =
     map (\<lambda>c. [c]) [CHR 0x09, CHR 0x0A, CHR 0x0B, CHR 0x0C, CHR 0x0D, CHR 0x20]
     @ [[CHR 0xC2, CHR 0x85], [CHR 0xC2, CHR 0xA0], [CHR 0xE1, CHR 0x9A, CHR 0x80]]
     @ map (\<lambda>c. [CHR 0xE2, CHR 0x80, c])
         [CHR 0x80, CHR 0x81, CHR 0x82, CHR 0x83, CHR 0x84, CHR 0x85, CHR 0x86, CHR 0x87,
          CHR 0x88, CHR 0x89, CHR 0x8A, CHR 0xA8, CHR 0xA9, CHR 0xAF]
     @ [[CHR 0xE2, CHR 0x81, CHR 0x9F], [CHR 0xE3, CHR 0x80, CHR 0x80]]"

text \<open>The rest of \<open>s\<close> after one of the given prefixes, the first that fits.\<close>

fun strip_one :: "string list \<Rightarrow> string \<Rightarrow> string option" where
  "strip_one [] s = None"
| "strip_one (e # es) s =
     (if take (length e) s = e then Some (drop (length e) s) else strip_one es s)"

text \<open>Each round removes at least one byte, so \<open>n = length s\<close> rounds are enough.\<close>

fun trim_rounds :: "nat \<Rightarrow> string list \<Rightarrow> string \<Rightarrow> string" where
  "trim_rounds 0 encs s = s"
| "trim_rounds (Suc n) encs s =
     (case strip_one encs s of None \<Rightarrow> s | Some rest \<Rightarrow> trim_rounds n encs rest)"

definition TrimLeftSpace :: "string \<Rightarrow> string" where
  "TrimLeftSpace s = trim_rounds (length s) space_encodings s"

definition TrimRightSpace :: "string \<Rightarrow> string" where
  "TrimRightSpace s = rev (trim_rounds (length s) (map rev space_encodings) (rev s))"

definition TrimSpace :: "string \<Rightarrow> string" where
  "TrimSpace s = TrimRightSpace (TrimLeftSpace s)"

definition is_digit :: "char \<Rightarrow> bool" where
  "is_digit c \<longleftrightarrow> 48 \<le> (of_char c :: nat) \<and> (of_char c :: nat) \<le> 57"

definition digit_val :: "char \<Rightarrow> int" where
  "digit_val c = int (of_char c) - 48"

text \<open>
  The digit loop of \<open>strconv.ParseUint(s, 10, 64)\<close>: a byte that is no decimal digit is a
  syntax error, a value beyond 64 bits a range error, whichever comes first.
\<close>

fun digits_loop :: "string \<Rightarrow> int \<Rightarrow> atoi_error + int" where
  "digits_loop [] n = Inr n"
| "digits_loop (c # cs) n =
     (if \<not> is_digit c then Inl ErrSyntax
      else if 2 ^ 64 \<le> n * 10 + digit_val c then Inl ErrRange
      else digits_loop cs (n * 10 + digit_val c))"

text \<open>
  \<open>strconv.Atoi\<close>: an optional sign, then at least one decimal digit; the value has to be
  an \<open>int\<close>.
\<close>

definition Atoi :: "string \<Rightarrow> atoi_error + int" where
  "Atoi s =
     (if s = [] then Inl ErrSyntax
      else
        let neg = (hd s = CHR ''-'');
            ds = (if hd s = CHR ''+'' \<or> hd s = CHR ''-'' then tl s else s)
        in if ds = [] then Inl ErrSyntax
           else case digits_loop ds 0 of
                  Inl e \<Rightarrow> Inl e
                | Inr un \<Rightarrow>
                    if \<not> neg \<and> 2 ^ 63 \<le> un then Inl ErrRange
                    else if neg \<and> 2 ^ 63 < un then Inl ErrRange
                    else Inr (if neg then - un else un))"

section \<open>Transformations (transform.go)\<close>

record TransformOptions =
  Resize :: string
  Fit :: string
  Crop :: string
  Rotate :: int
  Flip :: bool
  Flop :: bool

record TransformResult =
  RWidth :: int
  RHeight :: int
  RFormat :: string

definition applyCrop :: "lib \<Rightarrow> raster \<Rightarrow> string \<Rightarrow> crop_error + raster" where
  "applyCrop L img cropSpec =
     (let parts = Split cropSpec (CHR '','')
      in if length parts \<noteq> 4 then Inl CropFormat
         else case Atoi (TrimSpace (parts ! 0)) of
           Inl e \<Rightarrow> Inl (InvalidLeft e)
         | Inr left \<Rightarrow>
          (case Atoi (TrimSpace (parts ! 1)) of
             Inl e \<Rightarrow> Inl (InvalidTop e)
           | Inr top' \<Rightarrow>
            (case Atoi (TrimSpace (parts ! 2)) of
               Inl e \<Rightarrow> Inl (InvalidCropWidth e)
             | Inr width \<Rightarrow>
              (case Atoi (TrimSpace (parts ! 3)) of
                 Inl e \<Rightarrow> Inl (InvalidCropHeight e)
               | Inr height \<Rightarrow>
                  Inr (imaging_Crop L img
                         (Rect left top' (go_add left width) (go_add top' height)))))))"

text \<open>
  The comparison \<open>aspectOrig > aspectTarget\<close> of two quotients of \<open>float64\<close>. Division by
  zero gives an infinity or, for \<open>0 / 0\<close>, not-a-number, and no comparison with
  not-a-number holds.
\<close>

datatype fext = Finite rat | PosInf | NegInf | NaN

definition ieee_div :: "rat \<Rightarrow> rat \<Rightarrow> fext" where
  "ieee_div a b =
     (if b = 0 then (if 0 < a then PosInf else if a < 0 then NegInf else NaN)
      else Finite (f_div a b))"

fun fext_gt :: "fext \<Rightarrow> fext \<Rightarrow> bool" where
  "fext_gt NaN y = False"
| "fext_gt x NaN = False"
| "fext_gt (Finite a) (Finite b) = (b < a)"
| "fext_gt PosInf PosInf = False"
| "fext_gt PosInf y = True"
| "fext_gt x PosInf = False"
| "fext_gt NegInf y = False"
| "fext_gt x NegInf = True"

definition applyResize :: "lib \<Rightarrow> raster \<Rightarrow> string \<Rightarrow> string \<Rightarrow> resize_error + raster" where
  "applyResize L img sizeSpec fit =
     (let bounds = Bounds img; origWidth = Dx bounds; origHeight = Dy bounds
      in case (if HasSuffix sizeSpec ''%''
               then (case ParseFloat L (TrimSuffix sizeSpec ''%'') of
                       None \<Rightarrow> Inl InvalidPercentage
                     | Some pct \<Rightarrow>
                         Inr (int_of_float (f_div (f_mul (f_of_int origWidth) pct) 100),
                              int_of_float (f_div (f_mul (f_of_int origHeight) pct) 100)))
               else (let parts = Split (ToLower L sizeSpec) (CHR ''x'')
                     in if length parts \<noteq> 2 then Inl SizeFormat
                        else case Atoi (TrimSpace (parts ! 0)) of
                               Inl e \<Rightarrow> Inl (InvalidWidth e)
                             | Inr width \<Rightarrow>
                                (case Atoi (TrimSpace (parts ! 1)) of
                                   Inl e \<Rightarrow> Inl (InvalidHeight e)
                                 | Inr height \<Rightarrow> Inr (width, height)))) of
           Inl e \<Rightarrow> Inl e
         | Inr (width, height) \<Rightarrow>
             if fit = ''fill'' then Inr (imaging_Resize L img width height)
             else if fit = ''contain'' then Inr (imaging_Fit L img width height)
             else if fit = ''cover'' then Inr (imaging_Fill L img width height)
             else if fit = ''inside'' \<or> fit = [] then Inr (imaging_Fit L img width height)
             else if fit = ''outside''
             then (if fext_gt (ieee_div (f_of_int origWidth) (f_of_int origHeight))
                        (ieee_div (f_of_int width) (f_of_int height))
                   then Inr (imaging_Resize L img 0 height)
                   else Inr (imaging_Resize L img width 0))
             else Inl (InvalidFit fit))"

text \<open>
  \<open>Transform\<close>. The result is the error or the \<open>TransformResult\<close>, and the file system
  after the call. The options are a pointer that the function reads without a check for
  \<open>nil\<close>; its one caller passes the address of a literal, so the options are a value here.
\<close>

definition Transform ::
  "lib \<Rightarrow> world \<Rightarrow> string \<Rightarrow> string \<Rightarrow> TransformOptions
     \<Rightarrow> (error + TransformResult) \<times> world" where
  "Transform L w inputPath outputPath opts =
     (case imaging_Open w inputPath of
        Inl e \<Rightarrow> (Inl e, w)
      | Inr src \<Rightarrow>
         (case (if Crop opts \<noteq> []
                then (case applyCrop L src (Crop opts) of
                        Inl e \<Rightarrow> Inl (CropFailed e)
                      | Inr r \<Rightarrow> Inr r)
                else Inr src) of
            Inl e \<Rightarrow> (Inl e, w)
          | Inr result1 \<Rightarrow>
             (case (if Resize opts \<noteq> []
                    then (case applyResize L result1 (Resize opts) (Fit opts) of
                            Inl e \<Rightarrow> Inl (ResizeFailed e)
                          | Inr r \<Rightarrow> Inr r)
                    else Inr result1) of
                Inl e \<Rightarrow> (Inl e, w)
              | Inr result2 \<Rightarrow>
                 (let result3 = (if Rotate opts \<noteq> 0
                                 then imaging_Rotate L result2 (f_of_int (Rotate opts))
                                 else result2);
                      result4 = (if Flip opts then imaging_FlipV L result3 else result3);
                      result5 = (if Flop opts then imaging_FlipH L result4 else result4);
                      dir = path_Dir L outputPath
                  in case (if dir \<noteq> [] \<and> dir \<noteq> ''.'' then os_MkdirAll L w dir else Inr w) of
                       Inl e \<Rightarrow> (Inl e, w)
                     | Inr w1 \<Rightarrow>
                        (case imaging_Save L w1 result5 outputPath of
                           (Some e, w2) \<Rightarrow> (Inl e, w2)
                         | (None, w2) \<Rightarrow>
                            (Inr \<lparr>RWidth = Dx (Bounds result5), RHeight = Dy (Bounds result5),
                                  RFormat = TrimPrefix (path_Ext L outputPath) ''.''\<rparr>,
                             w2))))))"

section \<open>The transform command (cli/transform.go)\<close>

text \<open>The flags of the command, package-level variables in the source.\<close>

record transform_flags =
  transformOutput :: string
  transformResize :: string
  transformFit :: string
  transformCrop :: string
  transformRotate :: int
  transformFlip :: bool
  transformFlop :: bool

datatype cli_error =
    FILE_NOT_FOUND
  | NO_OPERATION
  | INVALID_ROTATION
  | TRANSFORM_FAILED error

text \<open>
  \<open>runTransform\<close>, with the code of the error it reports. \<open>os.Stat\<close> reports that the input
  does not exist when the path holds no file.
\<close>

definition runTransform ::
  "lib \<Rightarrow> world \<Rightarrow> transform_flags \<Rightarrow> string \<Rightarrow> (cli_error + TransformResult) \<times> world" where
  "runTransform L w flags inputPath =
     (if Files w inputPath = None then (Inl FILE_NOT_FOUND, w)
      else if transformResize flags = [] \<and> transformCrop flags = [] \<and> transformRotate flags = 0
              \<and> \<not> transformFlip flags \<and> \<not> transformFlop flags
      then (Inl NO_OPERATION, w)
      else if transformRotate flags < - 360 \<or> 360 < transformRotate flags
      then (Inl INVALID_ROTATION, w)
      else
        let opts = \<lparr>Resize = transformResize flags, Fit = transformFit flags,
                    Crop = transformCrop flags, Rotate = transformRotate flags,
                    Flip = transformFlip flags, Flop = transformFlop flags\<rparr>
        in case Transform L w inputPath (transformOutput flags) opts of
             (Inl e, w') \<Rightarrow> (Inl (TRANSFORM_FAILED e), w')
           | (Inr result, w') \<Rightarrow> (Inr result, w'))"

section \<open>The layouts in the words of the specification\<close>




section \<open>Crop specifications in the words of the specification\<close>

text \<open>
  An integer, as it is written: an optional sign, then at least one decimal digit.
  \<open>decimal\<close> is the value of a string of digits, \<open>int_value\<close> the value of an integer.
\<close>

definition decimal :: "string \<Rightarrow> int" where
  "decimal ds = foldl (\<lambda>n c. n * 10 + digit_val c) 0 ds"

definition integer_literal :: "string \<Rightarrow> bool" where
  "integer_literal s \<longleftrightarrow>
     (let ds = (if take 1 s = ''-'' \<or> take 1 s = ''+'' then drop 1 s else s)
      in ds \<noteq> [] \<and> list_all is_digit ds)"

definition int_value :: "string \<Rightarrow> int" where
  "int_value s =
     (if take 1 s = ''-'' then - decimal (drop 1 s)
      else if take 1 s = ''+'' then decimal (drop 1 s)
      else decimal s)"

text \<open>An integer whose value a 64-bit \<open>int\<close> holds: from \<open>- 2 ^ 63\<close> to \<open>2 ^ 63 - 1\<close>.\<close>

definition int64_literal :: "string \<Rightarrow> bool" where
  "int64_literal s \<longleftrightarrow> integer_literal s \<and> - (2 ^ 63) \<le> int_value s \<and> int_value s < 2 ^ 63"

text \<open>
  Four fields separated by three commas; four integers: every field, white space around
  it removed, is an integer; and four integers that a 64-bit \<open>int\<close> holds.
\<close>

definition four_fields :: "string \<Rightarrow> string \<Rightarrow> string \<Rightarrow> string \<Rightarrow> string \<Rightarrow> bool" where
  "four_fields spec a b c d \<longleftrightarrow>
     spec = a @ '','' @ b @ '','' @ c @ '','' @ d
     \<and> CHR '','' \<notin> set a \<and> CHR '','' \<notin> set b \<and> CHR '','' \<notin> set c \<and> CHR '','' \<notin> set d"

definition four_integers :: "string \<Rightarrow> bool" where
  "four_integers spec \<longleftrightarrow>
     (\<exists>a b c d. four_fields spec a b c d
        \<and> integer_literal (TrimSpace a) \<and> integer_literal (TrimSpace b)
        \<and> integer_literal (TrimSpace c) \<and> integer_literal (TrimSpace d))"

definition four_int64s :: "string \<Rightarrow> bool" where
  "four_int64s spec \<longleftrightarrow>
     (\<exists>a b c d. four_fields spec a b c d
        \<and> int64_literal (TrimSpace a) \<and> int64_literal (TrimSpace b)
        \<and> int64_literal (TrimSpace c) \<and> int64_literal (TrimSpace d))"

section \<open>The order of operations in the words of the specification\<close>

text \<open>
  The five operations of a request with their parameters, in the fixed order; an
  operation is requested when its parameter is set: a non-empty string, a non-zero angle,
  a flag that is true.
\<close>

datatype operation =
    OpCrop string
  | OpResize string string
  | OpRotate int
  | OpFlip bool
  | OpFlop bool

fun is_set :: "operation \<Rightarrow> bool" where
  "is_set (OpCrop spec) = (spec \<noteq> [])"
| "is_set (OpResize sz fit) = (sz \<noteq> [])"
| "is_set (OpRotate angle) = (angle \<noteq> 0)"
| "is_set (OpFlip b) = b"
| "is_set (OpFlop b) = b"

definition fixed_order :: "TransformOptions \<Rightarrow> operation list" where
  "fixed_order opts =
     [OpCrop (Crop opts), OpResize (Resize opts) (Fit opts), OpRotate (Rotate opts),
      OpFlip (Flip opts), OpFlop (Flop opts)]"

definition requested_ops :: "TransformOptions \<Rightarrow> operation list" where
  "requested_ops opts = filter is_set (fixed_order opts)"

text \<open>One operation on a raster, and a list of operations from left to right.\<close>

fun apply_operation :: "lib \<Rightarrow> operation \<Rightarrow> raster \<Rightarrow> error + raster" where
  "apply_operation L (OpCrop spec) img =
     (case applyCrop L img spec of Inl e \<Rightarrow> Inl (CropFailed e) | Inr r \<Rightarrow> Inr r)"
| "apply_operation L (OpResize sz fit) img =
     (case applyResize L img sz fit of Inl e \<Rightarrow> Inl (ResizeFailed e) | Inr r \<Rightarrow> Inr r)"
| "apply_operation L (OpRotate angle) img = Inr (imaging_Rotate L img (f_of_int angle))"
| "apply_operation L (OpFlip b) img = Inr (imaging_FlipV L img)"
| "apply_operation L (OpFlop b) img = Inr (imaging_FlipH L img)"

fun run_operations :: "lib \<Rightarrow> operation list \<Rightarrow> raster \<Rightarrow> error + raster" where
  "run_operations L [] img = Inr img"
| "run_operations L (op # ops) img =
     (case apply_operation L op img of
        Inl e \<Rightarrow> Inl e
      | Inr img' \<Rightarrow> run_operations L ops img')"

section \<open>Values for worked examples\<close>

text \<open>
  An instance of the library parameters in which every system call succeeds; its image
  operations return a raster with the bounds asked for, which is all the examples look
  at. \<open>example_world\<close> holds two image files.
\<close>

definition example_lib :: lib where
  "example_lib =
     \<lparr>unicode_ToLower = (\<lambda>s. s),
      path_Dir = (\<lambda>p. ''.''),
      path_Ext = (\<lambda>p. ''.png''),
      ParseFloat = (\<lambda>s. None),
      imaging_Crop = (\<lambda>img r. NewNRGBA r),
      imaging_Resize = (\<lambda>img w h. NewNRGBA (Rect 0 0 w h)),
      imaging_Fit = (\<lambda>img w h. NewNRGBA (Rect 0 0 w h)),
      imaging_Fill = (\<lambda>img w h. NewNRGBA (Rect 0 0 w h)),
      imaging_Rotate = (\<lambda>img a. img),
      imaging_FlipV = (\<lambda>img. img),
      imaging_FlipH = (\<lambda>img. img),
      draw_result = (\<lambda>c. NewNRGBA (CRect c)),
      MkdirAll_ok = (\<lambda>d. True),
      Create_ok = (\<lambda>p. True),
      Write_ok = (\<lambda>p. True),
      Save_outcome = (\<lambda>p. Saved)\<rparr>"

definition example_world :: world where
  "example_world =
     \<lparr>Files = [''a.png'' \<mapsto> ImageFile (solid 10 20 (NRGBA 0 0 0 255)),
               ''b.png'' \<mapsto> ImageFile (solid 30 5 (NRGBA 255 0 0 255))],
      Dirs = {}\<rparr>"

text \<open>The same library on a disk that is full: no image can be written completely.\<close>

definition full_disk_lib :: lib where
  "full_disk_lib = example_lib\<lparr>Write_ok := (\<lambda>p. False)\<rparr>"

text \<open>
  Two images of one pixel with an alpha channel: a grey pixel that is almost
  transparent, and a red pixel that is half transparent.
\<close>

definition translucent_world :: world where
  "translucent_world =
     \<lparr>Files = [''grey.png'' \<mapsto> ImageFile (solid 1 1 (NRGBA 200 200 200 5)),
               ''red.png'' \<mapsto> ImageFile (solid 1 1 (NRGBA 255 0 0 128))],
      Dirs = {}\<rparr>"

section \<open>Properties\<close>

subsection \<open>Integer arithmetic without wrap-around\<close>


lemma wrap64_id: "- (2 ^ 63) \<le> x \<Longrightarrow> x < 2 ^ 63 \<Longrightarrow> wrap64 x = x"
  unfolding wrap64_def by (rule signed_take_bit_int_eq_self) simp_all

lemma wrap64_range: "- (2 ^ 63) \<le> wrap64 x \<and> wrap64 x < 2 ^ 63"
  unfolding wrap64_def
  using signed_take_bit_int_greater_eq_minus_exp [of 63 x] signed_take_bit_int_less_exp [of 63 x]
  by simp

lemma go_add_id: "- (2 ^ 63) \<le> a + b \<Longrightarrow> a + b < 2 ^ 63 \<Longrightarrow> go_add a b = a + b"
  by (simp add: go_add_def wrap64_id)

lemma go_sub_id: "- (2 ^ 63) \<le> a - b \<Longrightarrow> a - b < 2 ^ 63 \<Longrightarrow> go_sub a b = a - b"
  by (simp add: go_sub_def wrap64_id)


lemma go_quot_nonneg: "0 \<le> a \<Longrightarrow> a < 2 ^ 63 \<Longrightarrow> 0 < b \<Longrightarrow> go_quot a b = a div b"
proof -
  assume a: "0 \<le> a" "a < 2 ^ 63" "0 < b"
  have "a div b \<le> a" using zdiv_mono2 [of a 1 b] a by simp
  moreover have "0 \<le> a div b" using a by (simp add: pos_imp_zdiv_nonneg_iff)
  moreover have "sgn a * sgn b * (\<bar>a\<bar> div \<bar>b\<bar>) = a div b"
    using a by (cases "a = 0") (simp_all add: sgn_if)
  ultimately have "wrap64 (sgn a * sgn b * (\<bar>a\<bar> div \<bar>b\<bar>)) = a div b"
    using a by (simp only: wrap64_id)
  then show ?thesis unfolding go_quot_def .
qed


lemma Dx_range: "- (2 ^ 63) \<le> Dx r \<and> Dx r < 2 ^ 63"
  unfolding Dx_def go_sub_def by (rule wrap64_range)

lemma Dy_range: "- (2 ^ 63) \<le> Dy r \<and> Dy r < 2 ^ 63"
  unfolding Dy_def go_sub_def by (rule wrap64_range)


lemma hsize_loop_snd:
  "snd (hsize_loop gap imgs i (tw, mh)) = fold max (map (\<lambda>img. Dy (Bounds img)) imgs) mh"
  by (induction imgs arbitrary: i tw mh) (simp_all add: Let_def max_def)




lemma hdraw_loop_frame:
  "CRect (hdraw_loop opts mh n imgs i x c) = CRect c \<and> CFill (hdraw_loop opts mh n imgs i x c) = CFill c"
  by (induction imgs arbitrary: i x c) (simp_all add: Let_def draw_Over_def)


lemma fold_max_ge: "(m::int) \<le> fold max hs m"
proof (induction hs arbitrary: m)
  case Nil
  then show ?case by simp
next
  case (Cons h hs)
  have "m \<le> max h m" by simp
  also have "\<dots> \<le> fold max hs (max h m)" by (rule Cons.IH)
  finally show ?case by simp
qed

lemma fold_max_mem: "fold max hs (m::int) \<in> insert m (set hs)"
proof (induction hs arbitrary: m)
  case Nil
  then show ?case by simp
next
  case (Cons h hs)
  have mem: "fold max hs (max h m) \<in> insert (max h m) (set hs)" by (rule Cons.IH)
  have "max h m = h \<or> max h m = m" by (simp add: max_def)
  then show ?case using mem by auto
qed

lemma fold_max_upper: "\<forall>h\<in>set hs. h \<le> fold max hs (m::int)"
proof (induction hs arbitrary: m)
  case Nil
  then show ?case by simp
next
  case (Cons h hs)
  have "max h m \<le> fold max hs (max h m)" by (rule fold_max_ge)
  then have "h \<le> fold max hs (max h m)" by simp
  then show ?case using Cons.IH by simp
qed


lemma Rect_Dy: "0 \<le> h \<Longrightarrow> h < 2 ^ 63 \<Longrightarrow> Dy (Rect 0 0 w h) = h"
  by (simp add: Rect_def Dy_def Pt_def go_sub_id)

lemma Rect_Dx: "0 \<le> w \<Longrightarrow> w < 2 ^ 63 \<Longrightarrow> Dx (Rect 0 0 w h) = w"
  by (simp add: Rect_def Dx_def Pt_def go_sub_id)

lemma fold_max_Dy_range:
  "0 \<le> fold max (map (\<lambda>img. Dy (Bounds img)) imgs) 0 \<and>
   fold max (map (\<lambda>img. Dy (Bounds img)) imgs) 0 < 2 ^ 63"
proof -
  let ?m = "fold max (map (\<lambda>img. Dy (Bounds img)) imgs) 0"
  have "?m \<in> insert 0 (set (map (\<lambda>img. Dy (Bounds img)) imgs))" by (rule fold_max_mem)
  then have "?m < 2 ^ 63" using Dy_range by auto
  moreover have "0 \<le> ?m" by (rule fold_max_ge)
  ultimately show ?thesis by simp
qed

lemma fold_max_Dx_range:
  "0 \<le> fold max (map (\<lambda>img. Dx (Bounds img)) imgs) 0 \<and>
   fold max (map (\<lambda>img. Dx (Bounds img)) imgs) 0 < 2 ^ 63"
proof -
  let ?m = "fold max (map (\<lambda>img. Dx (Bounds img)) imgs) 0"
  have "?m \<in> insert 0 (set (map (\<lambda>img. Dx (Bounds img)) imgs))" by (rule fold_max_mem)
  then have "?m < 2 ^ 63" using Dx_range by auto
  moreover have "0 \<le> ?m" by (rule fold_max_ge)
  ultimately show ?thesis by simp
qed

lemma vsize_loop_fst:
  "fst (vsize_loop gap imgs i (mw, th)) = fold max (map (\<lambda>img. Dx (Bounds img)) imgs) mw"
  by (induction imgs arbitrary: i mw th) (simp_all add: Let_def max_def)

lemma vdraw_loop_frame:
  "CRect (vdraw_loop opts mw n imgs i y c) = CRect c \<and> CFill (vdraw_loop opts mw n imgs i y c) = CFill c"
  by (induction imgs arbitrary: i y c) (simp_all add: Let_def draw_Over_def)

lemma hdraw_loop_centered:
  assumes "Align opts \<noteq> ''start''" "Align opts \<noteq> ''end''"
  shows "\<exists>ds. CDraws (hdraw_loop opts mh n imgs i x c) = CDraws c @ ds \<and>
    list_all2 (\<lambda>img (r, src, sp). src = img \<and>
        (\<exists>x. r = (let y = go_quot (go_sub mh (Dy (Bounds img))) 2
                   in Rect x y (go_add x (Dx (Bounds img))) (go_add y (Dy (Bounds img))))))
      imgs ds"
proof (induction imgs arbitrary: i x c)
  case Nil
  then show ?case by simp
next
  case (Cons img rest)
  define d where "d = (Rect x (go_quot (go_sub mh (Dy (Bounds img))) 2) (go_add x (Dx (Bounds img)))
       (go_add (go_quot (go_sub mh (Dy (Bounds img))) 2) (Dy (Bounds img))), img, Min_pt (Bounds img))"
  define x2 where "x2 = (if i < n - 1 then go_add (go_add x (Dx (Bounds img))) (Gap opts)
       else go_add x (Dx (Bounds img)))"
  have step: "hdraw_loop opts mh n (img # rest) i x c =
      hdraw_loop opts mh n rest (i + 1) x2 (c\<lparr>CDraws := CDraws c @ [d]\<rparr>)"
    using assms by (simp add: Let_def calculateAlignment_def draw_Over_def d_def x2_def)
  obtain ds where ds: "CDraws (hdraw_loop opts mh n rest (i + 1) x2 (c\<lparr>CDraws := CDraws c @ [d]\<rparr>))
        = CDraws (c\<lparr>CDraws := CDraws c @ [d]\<rparr>) @ ds"
    and all: "list_all2 (\<lambda>img (r, src, sp). src = img \<and>
        (\<exists>x. r = (let y = go_quot (go_sub mh (Dy (Bounds img))) 2
                   in Rect x y (go_add x (Dx (Bounds img))) (go_add y (Dy (Bounds img))))))
      rest ds"
    using Cons.IH by blast
  have "CDraws (hdraw_loop opts mh n (img # rest) i x c) = CDraws c @ (d # ds)"
    using step ds by simp
  moreover have "list_all2 (\<lambda>img (r, src, sp). src = img \<and>
        (\<exists>x. r = (let y = go_quot (go_sub mh (Dy (Bounds img))) 2
                   in Rect x y (go_add x (Dx (Bounds img))) (go_add y (Dy (Bounds img))))))
      (img # rest) (d # ds)"
    using all by (auto simp: d_def Let_def)
  ultimately show ?case by blast
qed

lemma vdraw_loop_centered:
  assumes "Align opts \<noteq> ''start''" "Align opts \<noteq> ''end''"
  shows "\<exists>ds. CDraws (vdraw_loop opts mw n imgs i y c) = CDraws c @ ds \<and>
    list_all2 (\<lambda>img (r, src, sp). src = img \<and>
        (\<exists>y. r = (let x = go_quot (go_sub mw (Dx (Bounds img))) 2
                   in Rect x y (go_add x (Dx (Bounds img))) (go_add y (Dy (Bounds img))))))
      imgs ds"
proof (induction imgs arbitrary: i y c)
  case Nil
  then show ?case by simp
next
  case (Cons img rest)
  define d where "d = (Rect (go_quot (go_sub mw (Dx (Bounds img))) 2) y 
       (go_add (go_quot (go_sub mw (Dx (Bounds img))) 2) (Dx (Bounds img)))
       (go_add y (Dy (Bounds img))), img, Min_pt (Bounds img))"
  define y2 where "y2 = (if i < n - 1 then go_add (go_add y (Dy (Bounds img))) (Gap opts)
       else go_add y (Dy (Bounds img)))"
  have step: "vdraw_loop opts mw n (img # rest) i y c =
      vdraw_loop opts mw n rest (i + 1) y2 (c\<lparr>CDraws := CDraws c @ [d]\<rparr>)"
    using assms by (simp add: Let_def calculateAlignment_def draw_Over_def d_def y2_def)
  obtain ds where ds: "CDraws (vdraw_loop opts mw n rest (i + 1) y2 (c\<lparr>CDraws := CDraws c @ [d]\<rparr>))
        = CDraws (c\<lparr>CDraws := CDraws c @ [d]\<rparr>) @ ds"
    and all: "list_all2 (\<lambda>img (r, src, sp). src = img \<and>
        (\<exists>y. r = (let x = go_quot (go_sub mw (Dx (Bounds img))) 2
                   in Rect x y (go_add x (Dx (Bounds img))) (go_add y (Dy (Bounds img))))))
      rest ds"
    using Cons.IH by blast
  have "CDraws (vdraw_loop opts mw n (img # rest) i y c) = CDraws c @ (d # ds)"
    using step ds by simp
  moreover have "list_all2 (\<lambda>img (r, src, sp). src = img \<and>
        (\<exists>y. r = (let x = go_quot (go_sub mw (Dx (Bounds img))) 2
                   in Rect x y (go_add x (Dx (Bounds img))) (go_add y (Dy (Bounds img))))))
      (img # rest) (d # ds)"
    using all by (auto simp: d_def Let_def)
  ultimately show ?case by blast
qed

lemma fillBackground_frame:
  "CRect (fillBackground L c bg) = CRect c \<and> CDraws (fillBackground L c bg) = []"
  by (simp add: fillBackground_def Let_def)

lemma combineHorizontal_unfold:
  "combineHorizontal L images opts =
     hdraw_loop opts (fold max (map (\<lambda>img. Dy (Bounds img)) images) 0) (int (length images)) images 0 0
       (fillBackground L (NewCanvas (Rect 0 0 (fst (hsize_loop (Gap opts) images 0 (0, 0)))
          (fold max (map (\<lambda>img. Dy (Bounds img)) images) 0))) (Background opts))"
proof -
  obtain tw mh where h: "hsize_loop (Gap opts) images 0 (0, 0) = (tw, mh)" by fastforce
  have mh: "mh = fold max (map (\<lambda>img. Dy (Bounds img)) images) 0"
    using hsize_loop_snd [of "Gap opts" images 0 0 0] h by simp
  show ?thesis by (simp add: combineHorizontal_def h mh [symmetric])
qed

lemma combineHorizontal_height:
  "Dy (CRect (combineHorizontal L images opts)) = fold max (map (\<lambda>img. Dy (Bounds img)) images) 0"
  using fold_max_Dy_range [of images]
  by (simp add: combineHorizontal_unfold hdraw_loop_frame fillBackground_frame NewCanvas_def Rect_Dy)

lemma combineVertical_unfold:
  "combineVertical L images opts =
     vdraw_loop opts (fold max (map (\<lambda>img. Dx (Bounds img)) images) 0) (int (length images)) images 0 0
       (fillBackground L (NewCanvas (Rect 0 0 (fold max (map (\<lambda>img. Dx (Bounds img)) images) 0)
          (snd (vsize_loop (Gap opts) images 0 (0, 0))))) (Background opts))"
proof -
  obtain mw th where v: "vsize_loop (Gap opts) images 0 (0, 0) = (mw, th)" by fastforce
  have mw: "mw = fold max (map (\<lambda>img. Dx (Bounds img)) images) 0"
    using vsize_loop_fst [of "Gap opts" images 0 0 0] v by simp
  show ?thesis by (simp add: combineVertical_def v mw [symmetric])
qed

lemma combineVertical_width:
  "Dx (CRect (combineVertical L images opts)) = fold max (map (\<lambda>img. Dx (Bounds img)) images) 0"
  using fold_max_Dx_range [of images]
  by (simp add: combineVertical_unfold vdraw_loop_frame fillBackground_frame NewCanvas_def Rect_Dx)

text \<open>
  Claim C10. For every alignment string other than \<open>start\<close> and \<open>end\<close> (the empty string
  and unrecognised values included), \<open>calculateAlignment\<close> returns half of container size
  minus item size, in Go's integer arithmetic, and every image of a row composition is
  drawn at that offset from the top of the canvas, every image of a column composition
  at that offset from its left edge. \<open>calculateAlignment\<close> is a total function to the
  integers: no alignment value is an error.
\<close>

theorem alignment_defaults_to_center:
  assumes "Align opts \<noteq> ''start''" "Align opts \<noteq> ''end''"
  shows "calculateAlignment containerSize itemSize (Align opts)
           = go_quot (go_sub containerSize itemSize) 2
       \<and> list_all2 (\<lambda>img (r, src, sp). src = img \<and>
            (\<exists>x. r = (let y = go_quot (go_sub (Dy (CRect (combineHorizontal L images opts)))
                                       (Dy (Bounds img))) 2
                       in Rect x y (go_add x (Dx (Bounds img))) (go_add y (Dy (Bounds img))))))
           images (CDraws (combineHorizontal L images opts))
       \<and> list_all2 (\<lambda>img (r, src, sp). src = img \<and>
            (\<exists>y. r = (let x = go_quot (go_sub (Dx (CRect (combineVertical L images opts)))
                                       (Dx (Bounds img))) 2
                       in Rect x y (go_add x (Dx (Bounds img))) (go_add y (Dy (Bounds img))))))
           images (CDraws (combineVertical L images opts))"
proof -
  have a: "calculateAlignment containerSize itemSize (Align opts)
           = go_quot (go_sub containerSize itemSize) 2"
    using assms by (simp add: calculateAlignment_def)
  obtain tw mh where h: "hsize_loop (Gap opts) images 0 (0, 0) = (tw, mh)" by fastforce
  have mh: "mh = fold max (map (\<lambda>img. Dy (Bounds img)) images) 0"
    using hsize_loop_snd [of "Gap opts" images 0 0 0] h by simp
  define ch where "ch = fillBackground L (NewCanvas (Rect 0 0 tw mh)) (Background opts)"
  have ch: "CRect ch = Rect 0 0 tw mh" "CDraws ch = []"
    by (simp_all add: ch_def fillBackground_def NewCanvas_def Let_def)
  have heq: "combineHorizontal L images opts = hdraw_loop opts mh (int (length images)) images 0 0 ch"
    by (simp add: combineHorizontal_def h ch_def)
  have hdy: "Dy (CRect (combineHorizontal L images opts)) = mh"
    using fold_max_Dy_range [of images] by (simp add: heq hdraw_loop_frame ch mh Rect_Dy)
  have b: "list_all2 (\<lambda>img (r, src, sp). src = img \<and>
            (\<exists>x. r = (let y = go_quot (go_sub (Dy (CRect (combineHorizontal L images opts)))
                                       (Dy (Bounds img))) 2
                       in Rect x y (go_add x (Dx (Bounds img))) (go_add y (Dy (Bounds img))))))
           images (CDraws (combineHorizontal L images opts))"
    using hdraw_loop_centered [OF assms, of mh "int (length images)" images 0 0 ch]
    by (simp add: hdy) (simp add: heq ch)
  obtain mw th where v: "vsize_loop (Gap opts) images 0 (0, 0) = (mw, th)" by fastforce
  have mw: "mw = fold max (map (\<lambda>img. Dx (Bounds img)) images) 0"
    using vsize_loop_fst [of "Gap opts" images 0 0 0] v by simp
  define cv where "cv = fillBackground L (NewCanvas (Rect 0 0 mw th)) (Background opts)"
  have cv: "CRect cv = Rect 0 0 mw th" "CDraws cv = []"
    by (simp_all add: cv_def fillBackground_def NewCanvas_def Let_def)
  have veq: "combineVertical L images opts = vdraw_loop opts mw (int (length images)) images 0 0 cv"
    by (simp add: combineVertical_def v cv_def)
  have vdx: "Dx (CRect (combineVertical L images opts)) = mw"
    using fold_max_Dx_range [of images] by (simp add: veq vdraw_loop_frame cv mw Rect_Dx)
  have c: "list_all2 (\<lambda>img (r, src, sp). src = img \<and>
            (\<exists>y. r = (let x = go_quot (go_sub (Dx (CRect (combineVertical L images opts)))
                                       (Dx (Bounds img))) 2
                       in Rect x y (go_add x (Dx (Bounds img))) (go_add y (Dy (Bounds img))))))
           images (CDraws (combineVertical L images opts))"
    using vdraw_loop_centered [OF assms, of mw "int (length images)" images 0 0 cv]
    by (simp add: vdx) (simp add: veq cv)
  show ?thesis using a b c by blast
qed

lemma Dx_solid: "0 \<le> w \<Longrightarrow> w < 2 ^ 63 \<Longrightarrow> 0 \<le> h \<Longrightarrow> Dx (Bounds (solid w h c)) = w"
  by (simp add: solid_def Rect_def Dx_def Pt_def go_sub_id)

lemma Dy_solid: "0 \<le> w \<Longrightarrow> h < 2 ^ 63 \<Longrightarrow> 0 \<le> h \<Longrightarrow> Dy (Bounds (solid w h c)) = h"
  by (simp add: solid_def Rect_def Dy_def Pt_def go_sub_id)


theorem alignment_defaults_to_center_witness:
  "\<forall>L. calculateAlignment 21 4 ''middle'' = 8
     \<and> list_all2 (\<lambda>img (r, src, sp). src = img \<and>
            (\<exists>x. r = Rect x (go_quot (go_sub 21 (Dy (Bounds img))) 2) (go_add x (Dx (Bounds img)))
                       (go_add (go_quot (go_sub 21 (Dy (Bounds img))) 2) (Dy (Bounds img)))))
           [solid 10 21 (NRGBA 0 0 0 255), solid 30 4 (NRGBA 255 0 0 255)]
           (CDraws (combineHorizontal L [solid 10 21 (NRGBA 0 0 0 255), solid 30 4 (NRGBA 255 0 0 255)]
              \<lparr>Direction = ''horizontal'', Gap = 0, Columns = 0, Align = ''middle'',
                 Background = ''white''\<rparr>))
     \<and> list_all2 (\<lambda>img (r, src, sp). src = img \<and>
            (\<exists>y. r = Rect (go_quot (go_sub 30 (Dx (Bounds img))) 2) y
                       (go_add (go_quot (go_sub 30 (Dx (Bounds img))) 2) (Dx (Bounds img)))
                       (go_add y (Dy (Bounds img)))))
           [solid 10 21 (NRGBA 0 0 0 255), solid 30 4 (NRGBA 255 0 0 255)]
           (CDraws (combineVertical L [solid 10 21 (NRGBA 0 0 0 255), solid 30 4 (NRGBA 255 0 0 255)]
              \<lparr>Direction = ''horizontal'', Gap = 0, Columns = 0, Align = ''middle'',
                 Background = ''white''\<rparr>))"
proof
  fix L
  let ?imgs = "[solid 10 21 (NRGBA 0 0 0 255), solid 30 4 (NRGBA 255 0 0 255)]"
  let ?o = "\<lparr>Direction = ''horizontal'', Gap = 0, Columns = 0, Align = ''middle'',
                 Background = ''white''\<rparr>"
  have a: "Align ?o \<noteq> ''start''" "Align ?o \<noteq> ''end''" by simp_all
  note T = alignment_defaults_to_center [OF a, of 21 4 L ?imgs]
  have c1: "calculateAlignment 21 4 (Align ?o) = go_quot (go_sub 21 4) 2" using T by blast
  have c1': "calculateAlignment 21 4 ''middle'' = 8"
    using c1 by (simp add: go_sub_id go_quot_nonneg)
  have hd: "Dy (CRect (combineHorizontal L ?imgs ?o)) = 21"
    by (simp add: combineHorizontal_height Dy_solid)
  have vd: "Dx (CRect (combineVertical L ?imgs ?o)) = 30"
    by (simp add: combineVertical_width Dx_solid)
  show "calculateAlignment 21 4 ''middle'' = 8
     \<and> list_all2 (\<lambda>img (r, src, sp). src = img \<and>
            (\<exists>x. r = Rect x (go_quot (go_sub 21 (Dy (Bounds img))) 2) (go_add x (Dx (Bounds img)))
                       (go_add (go_quot (go_sub 21 (Dy (Bounds img))) 2) (Dy (Bounds img)))))
           ?imgs (CDraws (combineHorizontal L ?imgs ?o))
     \<and> list_all2 (\<lambda>img (r, src, sp). src = img \<and>
            (\<exists>y. r = Rect (go_quot (go_sub 30 (Dx (Bounds img))) 2) y
                       (go_add (go_quot (go_sub 30 (Dx (Bounds img))) 2) (Dx (Bounds img)))
                       (go_add y (Dy (Bounds img)))))
           ?imgs (CDraws (combineVertical L ?imgs ?o))"
    using T c1' unfolding hd vd Let_def by blast
qed

subsection \<open>Rounding to float64 is exact on small dyadic numbers\<close>
























subsection \<open>Rejected requests\<close>



lemma open_loop_readable:
  assumes "\<forall>p\<in>set paths. \<exists>img. imaging_Open w p = Inr img"
  shows "\<exists>images. open_loop w paths = Inr images \<and> length images = length paths"
  using assms
proof (induction paths)
  case Nil
  then show ?case by simp
next
  case (Cons p ps)
  obtain img where img: "imaging_Open w p = Inr img" using Cons.prems by auto
  obtain images where "open_loop w ps = Inr images" "length images = length ps"
    using Cons by auto
  then show ?case using img by simp
qed

text \<open>
  Claim C5. \<open>CombineImages\<close> with fewer than two input paths returns the
  not-enough-images error; with at least two paths that all open and options whose
  direction is none of \<open>horizontal\<close>, \<open>vertical\<close> and \<open>grid\<close> it returns the
  invalid-direction error. Either way it returns no result and leaves the file system
  as it was.
\<close>

theorem CombineImages_rejects:
  "(length inputPaths < 2 \<longrightarrow>
      CombineImages L w inputPaths outputPath opts0 = (Inl NotEnoughImages, w))
   \<and> (2 \<le> length inputPaths \<and> (\<forall>p\<in>set inputPaths. \<exists>img. imaging_Open w p = Inr img)
        \<and> Direction opts \<noteq> ''horizontal'' \<and> Direction opts \<noteq> ''vertical''
        \<and> Direction opts \<noteq> ''grid'' \<longrightarrow>
      CombineImages L w inputPaths outputPath (Some opts)
        = (Inl (InvalidDirection (Direction opts)), w))"
proof (intro conjI impI)
  assume "length inputPaths < 2"
  then show "CombineImages L w inputPaths outputPath opts0 = (Inl NotEnoughImages, w)"
    by (simp add: CombineImages_def)
next
  assume a: "2 \<le> length inputPaths \<and> (\<forall>p\<in>set inputPaths. \<exists>img. imaging_Open w p = Inr img)
        \<and> Direction opts \<noteq> ''horizontal'' \<and> Direction opts \<noteq> ''vertical''
        \<and> Direction opts \<noteq> ''grid''"
  then obtain images where "open_loop w inputPaths = Inr images"
    using open_loop_readable [of inputPaths w] by blast
  then show "CombineImages L w inputPaths outputPath (Some opts)
        = (Inl (InvalidDirection (Direction opts)), w)"
    using a by (simp add: CombineImages_def)
qed

lemma example_open:
  "imaging_Open example_world ''a.png'' = Inr (solid 10 20 (NRGBA 0 0 0 255))"
  "imaging_Open example_world ''b.png'' = Inr (solid 30 5 (NRGBA 255 0 0 255))"
  by (simp_all add: imaging_Open_def example_world_def)

theorem CombineImages_rejects_witness:
  "CombineImages example_lib example_world [''a.png''] ''out.png'' None
     = (Inl NotEnoughImages, example_world)
   \<and> CombineImages example_lib example_world [''a.png'', ''b.png''] ''out.png''
       (Some \<lparr>Direction = ''diagonal'', Gap = 0, Columns = 0, Align = ''center'',
               Background = ''white''\<rparr>)
     = (Inl (InvalidDirection ''diagonal''), example_world)"
proof -
  let ?o = "\<lparr>Direction = ''diagonal'', Gap = 0, Columns = 0, Align = ''center'',
               Background = ''white''\<rparr>"
  note T1 = CombineImages_rejects [of "[''a.png'']" example_lib example_world "''out.png''" None
      undefined, THEN conjunct1]
  note T2 = CombineImages_rejects [of "[''a.png'', ''b.png'']" example_lib example_world
      "''out.png''" None ?o, THEN conjunct2]
  have a: "CombineImages example_lib example_world [''a.png''] ''out.png'' None
     = (Inl NotEnoughImages, example_world)"
    using T1 by simp
  have b: "CombineImages example_lib example_world [''a.png'', ''b.png''] ''out.png'' (Some ?o)
     = (Inl (InvalidDirection ''diagonal''), example_world)"
    using T2 by (simp add: example_open)
  show ?thesis using a b by simp
qed

text \<open>
  Claim C7, as the code has it. A transform request with no operation (empty resize and
  crop specifications, rotation zero, no flip, no flop) is rejected without any
  transformation and without a change to the file system: with the no-operation error
  when the input file exists, and with the file-not-found error, which the command
  checks first, when it does not.
\<close>

theorem runTransform_no_operation:
  assumes "transformResize flags = []" "transformCrop flags = []" "transformRotate flags = 0"
    and "\<not> transformFlip flags" "\<not> transformFlop flags"
  shows "runTransform L w flags inputPath =
           (Inl (if Files w inputPath = None then FILE_NOT_FOUND else NO_OPERATION), w)"
  using assms by (simp add: runTransform_def)

theorem runTransform_no_operation_witness:
  "runTransform example_lib example_world
     \<lparr>transformOutput = ''out.png'', transformResize = [], transformFit = ''inside'',
        transformCrop = [], transformRotate = 0, transformFlip = False, transformFlop = False\<rparr>
     ''a.png'' = (Inl NO_OPERATION, example_world)"
  using runTransform_no_operation [of
     "\<lparr>transformOutput = ''out.png'', transformResize = [], transformFit = ''inside'',
        transformCrop = [], transformRotate = 0, transformFlip = False, transformFlop = False\<rparr>"
     example_lib example_world "''a.png''"]
  by (simp add: example_world_def)

theorem runTransform_no_operation_counterexample:
  "fst (runTransform example_lib example_world
     \<lparr>transformOutput = ''out.png'', transformResize = [], transformFit = ''inside'',
        transformCrop = [], transformRotate = 0, transformFlip = False, transformFlop = False\<rparr>
     ''missing.png'') = Inl FILE_NOT_FOUND
   \<and> fst (runTransform example_lib example_world
     \<lparr>transformOutput = ''out.png'', transformResize = [], transformFit = ''inside'',
        transformCrop = [], transformRotate = 0, transformFlip = False, transformFlop = False\<rparr>
     ''missing.png'') \<noteq> Inl NO_OPERATION"
  by (simp add: runTransform_def example_world_def)

subsection \<open>Output files\<close>



lemma open_loop_not_encode: "open_loop w paths = Inl e \<Longrightarrow> e \<noteq> EncodeFailed"
  by (induction paths) (auto simp: imaging_Open_def split: sum.splits option.splits file_content.splits)

lemma write_tail_cases:
  assumes "(case (if dir \<noteq> [] \<and> dir \<noteq> ''.'' then os_MkdirAll L w dir else Inr w) of
              Inl e \<Rightarrow> (Inl e, w)
            | Inr w1 \<Rightarrow>
               (case os_Create L w1 outputPath of
                  Inl e \<Rightarrow> (Inl e, w1)
                | Inr w2 \<Rightarrow>
                   (case png_Encode L w2 outputPath img of
                      (Some e, w3) \<Rightarrow> (Inl e, w3)
                    | (None, w3) \<Rightarrow> (Inr r, w3)))) = (res, w')"
  shows "case res of
           Inr r' \<Rightarrow> Files w' = (Files w)(outputPath \<mapsto> ImageFile img)
         | Inl e \<Rightarrow> if e = EncodeFailed then Files w' = (Files w)(outputPath \<mapsto> Truncated)
                    else Files w' = Files w"
  using assms
  by (auto simp: os_MkdirAll_def os_Create_def png_Encode_def Let_def
           split: if_splits sum.splits option.splits prod.splits)

text \<open>
  Claim C6, as the code has it. A call of \<open>CombineImages\<close> or of \<open>MakeTransparent\<close> that
  succeeds has changed exactly one file, the output file, which holds the complete
  image. A call that returns an error other than the encoding error has changed no
  file. A call that returns the encoding error has created the output file and left it
  behind incomplete.
\<close>

theorem output_file_after_call:
  "(case CombineImages L w inputPaths outputPath copts of
      (Inr r, w') \<Rightarrow> (\<exists>img. Files w' = (Files w)(outputPath \<mapsto> ImageFile img))
    | (Inl e, w') \<Rightarrow> (if e = EncodeFailed then Files w' = (Files w)(outputPath \<mapsto> Truncated)
                       else Files w' = Files w))
   \<and> (case MakeTransparent L w inputPath outputPath topts of
      (Inr r, w') \<Rightarrow> (\<exists>img. Files w' = (Files w)(outputPath \<mapsto> ImageFile img))
    | (Inl e, w') \<Rightarrow> (if e = EncodeFailed then Files w' = (Files w)(outputPath \<mapsto> Truncated)
                       else Files w' = Files w))"
proof
  obtain res w' where c: "CombineImages L w inputPaths outputPath copts = (res, w')"
    by fastforce
  have "case res of
          Inr r \<Rightarrow> (\<exists>img. Files w' = (Files w)(outputPath \<mapsto> ImageFile img))
        | Inl e \<Rightarrow> (if e = EncodeFailed then Files w' = (Files w)(outputPath \<mapsto> Truncated)
                       else Files w' = Files w)"
  proof (cases "length inputPaths < 2")
    case True
    then show ?thesis using c by (auto simp: CombineImages_def)
  next
    case False
    define opts where "opts = (case copts of
                      None \<Rightarrow> \<lparr>Direction = ''horizontal'', Gap = 0, Columns = 0,
                                Align = ''center'', Background = ''transparent''\<rparr>
                    | Some opts \<Rightarrow> opts)"
    show ?thesis
    proof (cases "open_loop w inputPaths")
      case (Inl e)
      then show ?thesis using c False open_loop_not_encode [OF Inl]
        by (auto simp: CombineImages_def)
    next
      case (Inr images)
      show ?thesis
      proof (cases "Direction opts = ''horizontal'' \<or> Direction opts = ''vertical''
                    \<or> Direction opts = ''grid''")
        case no: False
        then show ?thesis using c False Inr
          by (auto simp: CombineImages_def opts_def [symmetric] Let_def)
      next
        case True
        define result where "result =
          (if Direction opts = ''horizontal'' then combineHorizontal L images opts
           else if Direction opts = ''vertical'' then combineVertical L images opts
           else combineGrid L images opts)"
        have dirres: "(if Direction opts = ''horizontal'' then Inr (combineHorizontal L images opts)
                     else if Direction opts = ''vertical'' then Inr (combineVertical L images opts)
                     else if Direction opts = ''grid'' then Inr (combineGrid L images opts)
                     else Inl (InvalidDirection (Direction opts))) = Inr result"
          using True by (auto simp: result_def)
        have "(case (if path_Dir L outputPath \<noteq> [] \<and> path_Dir L outputPath \<noteq> ''.''
                     then os_MkdirAll L w (path_Dir L outputPath) else Inr w) of
              Inl e \<Rightarrow> (Inl e, w)
            | Inr w1 \<Rightarrow>
               (case os_Create L w1 outputPath of
                  Inl e \<Rightarrow> (Inl e, w1)
                | Inr w2 \<Rightarrow>
                   (case png_Encode L w2 outputPath (draw_result L result) of
                      (Some e, w3) \<Rightarrow> (Inl e, w3)
                    | (None, w3) \<Rightarrow>
                       (Inr \<lparr>Width = Dx (CRect result), Height = Dy (CRect result),
                             Format = ''png''\<rparr>, w3)))) = (res, w')"
          using c False Inr
          by (simp add: CombineImages_def opts_def [symmetric] Let_def dirres)
        from write_tail_cases [OF this] show ?thesis
          by (auto split: sum.splits)
      qed
    qed
  qed
  then show "case CombineImages L w inputPaths outputPath copts of
      (Inr r, w') \<Rightarrow> (\<exists>img. Files w' = (Files w)(outputPath \<mapsto> ImageFile img))
    | (Inl e, w') \<Rightarrow> (if e = EncodeFailed then Files w' = (Files w)(outputPath \<mapsto> Truncated)
                       else Files w' = Files w)"
    by (simp add: c)
next
  obtain res w' where c: "MakeTransparent L w inputPath outputPath topts = (res, w')"
    by fastforce
  define opts where "opts = (case topts of
                    None \<Rightarrow> \<lparr>Color = ''white'', Tolerance = 10\<rparr>
                  | Some opts \<Rightarrow> opts)"
  have "case res of
          Inr r \<Rightarrow> (\<exists>img. Files w' = (Files w)(outputPath \<mapsto> ImageFile img))
        | Inl e \<Rightarrow> (if e = EncodeFailed then Files w' = (Files w)(outputPath \<mapsto> Truncated)
                       else Files w' = Files w)"
  proof (cases "parseColor L (Color opts)")
    case (Inl e)
    then show ?thesis using c by (auto simp: MakeTransparent_def opts_def [symmetric])
  next
    case col: (Inr targetColor)
    show ?thesis
    proof (cases "imaging_Open w inputPath")
      case (Inl e)
      then have "e = OpenFailed inputPath"
        by (auto simp: imaging_Open_def split: option.splits file_content.splits)
      then show ?thesis using c col Inl
        by (auto simp: MakeTransparent_def opts_def [symmetric])
    next
      case (Inr src)
      define result where "result = pixel_loop src targetColor
          (tolerance_threshold (Tolerance opts)) (NewNRGBA (Bounds src))"
      have "(case (if path_Dir L outputPath \<noteq> [] \<and> path_Dir L outputPath \<noteq> ''.''
                     then os_MkdirAll L w (path_Dir L outputPath) else Inr w) of
              Inl e \<Rightarrow> (Inl e, w)
            | Inr w1 \<Rightarrow>
               (case os_Create L w1 outputPath of
                  Inl e \<Rightarrow> (Inl e, w1)
                | Inr w2 \<Rightarrow>
                   (case png_Encode L w2 outputPath result of
                      (Some e, w3) \<Rightarrow> (Inl e, w3)
                    | (None, w3) \<Rightarrow>
                       (Inr \<lparr>TWidth = Dx (Bounds src), THeight = Dy (Bounds src)\<rparr>, w3))))
             = (res, w')"
        unfolding result_def using c col Inr
        by (simp add: MakeTransparent_def opts_def [symmetric] Let_def)
      from write_tail_cases [OF this] show ?thesis
        by (auto split: sum.splits)
    qed
  qed
  then show "case MakeTransparent L w inputPath outputPath topts of
      (Inr r, w') \<Rightarrow> (\<exists>img. Files w' = (Files w)(outputPath \<mapsto> ImageFile img))
    | (Inl e, w') \<Rightarrow> (if e = EncodeFailed then Files w' = (Files w)(outputPath \<mapsto> Truncated)
                       else Files w' = Files w)"
    by (simp add: c)
qed


lemma Bounds_SetNRGBA: "Bounds (SetNRGBA img x y c) = Bounds img"
  by (simp add: SetNRGBA_def)

lemma Bounds_pixel_step: "Bounds (pixel_step src t tol y x res) = Bounds res"
  by (simp add: pixel_step_def Let_def Bounds_SetNRGBA split: prod.splits)

lemma Bounds_fold_pixel_step:
  "Bounds (fold (pixel_step src t tol y) xs res) = Bounds res"
  by (induction xs arbitrary: res) (simp_all add: Bounds_pixel_step)

lemma Bounds_pixel_loop: "Bounds (pixel_loop src t tol res) = Bounds res"
proof -
  have "Bounds (fold (\<lambda>y res. fold (pixel_step src t tol y) xs res) ys res) = Bounds res"
    for xs ys
    by (induction ys arbitrary: res) (simp_all add: Bounds_fold_pixel_step)
  then show ?thesis by (simp add: pixel_loop_def Let_def)
qed

lemma parseColor_white: "parseColor L ''white'' = Inr (RGBA 255 255 255 255)"
  by (simp add: parseColor_def ToLower_def ascii_lower_def Let_def)

lemma path_Dir_example: "path_Dir example_lib p = ''.''" "path_Dir full_disk_lib p = ''.''"
  by (simp_all add: example_lib_def full_disk_lib_def)

lemma MakeTransparent_example:
  "MakeTransparent example_lib example_world ''a.png'' ''out.png'' None =
     (Inr \<lparr>TWidth = 10, THeight = 20\<rparr>,
      example_world\<lparr>Files := (Files example_world)(''out.png'' \<mapsto>
         ImageFile (pixel_loop (solid 10 20 (NRGBA 0 0 0 255)) (RGBA 255 255 255 255)
            (tolerance_threshold 10) (NewNRGBA (Bounds (solid 10 20 (NRGBA 0 0 0 255))))))\<rparr>)"
  by (simp add: MakeTransparent_def parseColor_white example_open Let_def path_Dir_example
        os_Create_def png_Encode_def Bounds_pixel_loop NewNRGBA_def Dx_solid Dy_solid
        example_lib_def)

lemma MakeTransparent_full_disk:
  "MakeTransparent full_disk_lib example_world ''a.png'' ''out.png'' None =
     (Inl EncodeFailed, example_world\<lparr>Files := (Files example_world)(''out.png'' \<mapsto> Truncated)\<rparr>)"
  by (simp add: MakeTransparent_def parseColor_white example_open Let_def path_Dir_example
        os_Create_def png_Encode_def Bounds_pixel_loop NewNRGBA_def Dx_solid Dy_solid
        example_lib_def full_disk_lib_def)

theorem output_file_after_call_witness:
  "fst (MakeTransparent example_lib example_world ''a.png'' ''out.png'' None)
     = Inr \<lparr>TWidth = 10, THeight = 20\<rparr>
   \<and> (\<exists>img. Files (snd (MakeTransparent example_lib example_world ''a.png'' ''out.png'' None))
          = (Files example_world)(''out.png'' \<mapsto> ImageFile img))"
proof -
  have ok: "fst (MakeTransparent example_lib example_world ''a.png'' ''out.png'' None)
     = Inr \<lparr>TWidth = 10, THeight = 20\<rparr>"
    by (simp add: MakeTransparent_example)
  have "case MakeTransparent example_lib example_world ''a.png'' ''out.png'' None of
      (Inr r, w') \<Rightarrow> (\<exists>img. Files w' = (Files example_world)(''out.png'' \<mapsto> ImageFile img))
    | (Inl e, w') \<Rightarrow> (if e = EncodeFailed
                       then Files w' = (Files example_world)(''out.png'' \<mapsto> Truncated)
                       else Files w' = Files example_world)"
    using output_file_after_call [where L = example_lib and w = example_world
        and inputPaths = "[]" and outputPath = "''out.png''" and copts = None
        and inputPath = "''a.png''" and topts = None]
    by (rule conjunct2)
  then show ?thesis using ok by (auto split: prod.splits sum.splits)
qed

theorem output_file_after_call_counterexample:
  "fst (MakeTransparent full_disk_lib example_world ''a.png'' ''out.png'' None) = Inl EncodeFailed
   \<and> Files example_world ''out.png'' = None
   \<and> Files (snd (MakeTransparent full_disk_lib example_world ''a.png'' ''out.png'' None))
        ''out.png'' = Some Truncated"
proof -
  have "Files example_world ''out.png'' = None" by (simp add: example_world_def)
  moreover have "MakeTransparent full_disk_lib example_world ''a.png'' ''out.png'' None
      = (Inl EncodeFailed, example_world\<lparr>Files := (Files example_world)(''out.png'' \<mapsto> Truncated)\<rparr>)"
    by (rule MakeTransparent_full_disk)
  ultimately show ?thesis by simp
qed

subsection \<open>Crop specifications\<close>

lemma Split_nonempty: "Split s sep \<noteq> []"
  by (induction s) (auto split: list.splits)

lemma Split_no_sep: "sep \<notin> set a \<Longrightarrow> Split a sep = [a]"
  by (induction a) auto

lemma Split_append: "sep \<notin> set a \<Longrightarrow> Split (a @ sep # rest) sep = a # Split rest sep"
  by (induction a) (auto split: list.splits)

lemma Split_hd:
  "Split s sep = p # ps \<Longrightarrow> sep \<notin> set p \<and> (if ps = [] then s = p else \<exists>rest. s = p @ sep # rest \<and> Split rest sep = ps)"
proof (induction s arbitrary: p ps)
  case Nil
  then show ?case by simp
next
  case (Cons c cs)
  show ?case
  proof (cases "c = sep")
    case True
    then show ?thesis using Cons.prems Split_nonempty [of cs sep] by auto
  next
    case False
    obtain q qs where q: "Split cs sep = q # qs"
      using Split_nonempty [of cs sep] by (cases "Split cs sep") auto
    then have p: "p = c # q" "ps = qs" using Cons.prems False by auto
    from Cons.IH [OF q] show ?thesis using p False by auto
  qed
qed

lemma Split_four:
  "Split spec (CHR '','') = [a, b, c, d] \<longleftrightarrow> four_fields spec a b c d"
proof
  assume s: "Split spec (CHR '','') = [a, b, c, d]"
  from Split_hd [OF s] obtain r1 where r1: "CHR '','' \<notin> set a" "spec = a @ CHR '','' # r1"
      "Split r1 (CHR '','') = [b, c, d]" by auto
  from Split_hd [OF r1(3)] obtain r2 where r2: "CHR '','' \<notin> set b" "r1 = b @ CHR '','' # r2"
      "Split r2 (CHR '','') = [c, d]" by auto
  from Split_hd [OF r2(3)] obtain r3 where r3: "CHR '','' \<notin> set c" "r2 = c @ CHR '','' # r3"
      "Split r3 (CHR '','') = [d]" by auto
  from Split_hd [OF r3(3)] have r4: "CHR '','' \<notin> set d" "r3 = d" by auto
  show "four_fields spec a b c d"
    using r1 r2 r3 r4 by (simp add: four_fields_def)
next
  assume "four_fields spec a b c d"
  then show "Split spec (CHR '','') = [a, b, c, d]"
    by (simp add: four_fields_def Split_append Split_no_sep)
qed

lemma length_Split: "length (Split s sep) = Suc (count_list s sep)"
  by (induction s) (auto split: list.splits simp: Split_nonempty)

lemma digit_val_range: "is_digit c \<Longrightarrow> 0 \<le> digit_val c \<and> digit_val c \<le> 9"
  by (auto simp: is_digit_def digit_val_def)

lemma foldl_digits_ge:
  "list_all is_digit ds \<Longrightarrow> 0 \<le> n \<Longrightarrow> n \<le> foldl (\<lambda>n c. n * 10 + digit_val c) n ds"
proof (induction ds arbitrary: n)
  case Nil
  then show ?case by simp
next
  case (Cons c cs)
  have d: "0 \<le> digit_val c" using Cons.prems(1) digit_val_range by simp
  have "n \<le> n * 10 + digit_val c" using Cons.prems(2) d by simp
  also have "\<dots> \<le> foldl (\<lambda>n c. n * 10 + digit_val c) (n * 10 + digit_val c) cs"
    using Cons.prems d by (intro Cons.IH) simp_all
  finally show ?case by simp
qed

lemma digits_loop_Inr:
  assumes "0 \<le> n"
  shows "digits_loop ds n = Inr m \<longleftrightarrow>
           list_all is_digit ds \<and> m = foldl (\<lambda>n c. n * 10 + digit_val c) n ds
           \<and> (ds \<noteq> [] \<longrightarrow> m < 2 ^ 64)"
  using assms
proof (induction ds arbitrary: n)
  case Nil
  then show ?case by auto
next
  case (Cons c cs)
  show ?case
  proof (cases "is_digit c")
    case False
    then show ?thesis by simp
  next
    case True
    let ?n' = "n * 10 + digit_val c"
    have n': "0 \<le> ?n'" using Cons.prems True digit_val_range by simp
    show ?thesis
    proof (cases "2 ^ 64 \<le> ?n'")
      case big: True
      have "list_all is_digit cs \<Longrightarrow> 2 ^ 64 \<le> foldl (\<lambda>n c. n * 10 + digit_val c) ?n' cs"
        using foldl_digits_ge [of cs ?n'] n' big by linarith
      then show ?thesis using True big by auto
    next
      case small: False
      have "digits_loop (c # cs) n = digits_loop cs ?n'" using True small by simp
      then show ?thesis using Cons.IH [OF n'] True small
        by (cases "cs = []") auto
    qed
  qed
qed

lemma digits_loop_total: "\<exists>r. digits_loop ds n = r"
  by simp

lemma digits_loop_0:
  "digits_loop ds 0 = Inr m \<longleftrightarrow>
     list_all is_digit ds \<and> m = decimal ds \<and> (ds \<noteq> [] \<longrightarrow> m < 2 ^ 64)"
  using digits_loop_Inr [of 0 ds m] by (simp add: decimal_def)

lemma not_digit_sign: "\<not> is_digit (CHR ''-'')" "\<not> is_digit (CHR ''+'')"
  by (simp_all add: is_digit_def)

lemma decimal_nonneg: "list_all is_digit ds \<Longrightarrow> 0 \<le> decimal ds"
  unfolding decimal_def using foldl_digits_ge [of ds 0] by simp

lemma integer_literal_sign:
  "integer_literal (CHR ''-'' # cs) \<longleftrightarrow> cs \<noteq> [] \<and> list_all is_digit cs"
  "integer_literal (CHR ''+'' # cs) \<longleftrightarrow> cs \<noteq> [] \<and> list_all is_digit cs"
  by (simp_all add: integer_literal_def)

lemma integer_literal_unsigned:
  "c \<noteq> CHR ''-'' \<Longrightarrow> c \<noteq> CHR ''+'' \<Longrightarrow> integer_literal (c # cs) \<longleftrightarrow> list_all is_digit (c # cs)"
  by (simp add: integer_literal_def)

lemma int_value_sign:
  "int_value (CHR ''-'' # cs) = - decimal cs" "int_value (CHR ''+'' # cs) = decimal cs"
  by (simp_all add: int_value_def)

lemma int_value_unsigned:
  "c \<noteq> CHR ''-'' \<Longrightarrow> c \<noteq> CHR ''+'' \<Longrightarrow> int_value (c # cs) = decimal (c # cs)"
  by (simp add: int_value_def)

lemma int64_literal_minus:
  "int64_literal (CHR ''-'' # cs) \<longleftrightarrow> cs \<noteq> [] \<and> list_all is_digit cs \<and> decimal cs \<le> 2 ^ 63"
proof (cases "list_all is_digit cs")
  case True
  then have "0 \<le> decimal cs" by (rule decimal_nonneg)
  moreover have "(0 :: int) < 2 ^ 63" by simp
  ultimately have "- (2 ^ 63) \<le> - decimal cs \<and> - decimal cs < 2 ^ 63 \<longleftrightarrow> decimal cs \<le> 2 ^ 63"
    by linarith
  then show ?thesis
    unfolding int64_literal_def integer_literal_sign int_value_sign using True by blast
next
  case False
  then show ?thesis unfolding int64_literal_def integer_literal_sign by blast
qed

lemma int64_literal_plus:
  "int64_literal (CHR ''+'' # cs) \<longleftrightarrow> cs \<noteq> [] \<and> list_all is_digit cs \<and> decimal cs < 2 ^ 63"
proof (cases "list_all is_digit cs")
  case True
  then have "0 \<le> decimal cs" by (rule decimal_nonneg)
  then have "- (2 ^ 63) \<le> decimal cs \<and> decimal cs < 2 ^ 63 \<longleftrightarrow> decimal cs < 2 ^ 63"
    by linarith
  then show ?thesis
    unfolding int64_literal_def integer_literal_sign int_value_sign using True by blast
next
  case False
  then show ?thesis unfolding int64_literal_def integer_literal_sign by blast
qed

lemma int64_literal_unsigned:
  assumes "c \<noteq> CHR ''-''" "c \<noteq> CHR ''+''"
  shows "int64_literal (c # cs) \<longleftrightarrow> list_all is_digit (c # cs) \<and> decimal (c # cs) < 2 ^ 63"
proof (cases "list_all is_digit (c # cs)")
  case True
  then have "0 \<le> decimal (c # cs)" by (rule decimal_nonneg)
  then have "- (2 ^ 63) \<le> decimal (c # cs) \<and> decimal (c # cs) < 2 ^ 63
      \<longleftrightarrow> decimal (c # cs) < 2 ^ 63"
    by linarith
  then show ?thesis
    unfolding int64_literal_def integer_literal_unsigned [OF assms] int_value_unsigned [OF assms]
    using True by blast
next
  case False
  then show ?thesis unfolding int64_literal_def integer_literal_unsigned [OF assms] by blast
qed

lemma int64_literal_Nil: "\<not> int64_literal []"
  by (simp add: int64_literal_def integer_literal_def)

lemma Atoi_minus:
  "Atoi (CHR ''-'' # cs) =
     (if cs = [] then Inl ErrSyntax
      else case digits_loop cs 0 of
             Inl e \<Rightarrow> Inl e
           | Inr un \<Rightarrow> if 2 ^ 63 < un then Inl ErrRange else Inr (- un))"
  by (simp add: Atoi_def Let_def split: sum.splits)

lemma Atoi_plus:
  "Atoi (CHR ''+'' # cs) =
     (if cs = [] then Inl ErrSyntax
      else case digits_loop cs 0 of
             Inl e \<Rightarrow> Inl e
           | Inr un \<Rightarrow> if 2 ^ 63 \<le> un then Inl ErrRange else Inr un)"
  by (simp add: Atoi_def Let_def split: sum.splits)

lemma Atoi_unsigned:
  "c \<noteq> CHR ''-'' \<Longrightarrow> c \<noteq> CHR ''+'' \<Longrightarrow>
   Atoi (c # cs) =
     (case digits_loop (c # cs) 0 of
        Inl e \<Rightarrow> Inl e
      | Inr un \<Rightarrow> if 2 ^ 63 \<le> un then Inl ErrRange else Inr un)"
  by (simp add: Atoi_def Let_def del: digits_loop.simps split: sum.splits)

lemma Atoi_Inr: "Atoi s = Inr v \<longleftrightarrow> int64_literal s \<and> v = int_value s"
proof (cases s)
  case Nil
  then show ?thesis by (simp add: Atoi_def int64_literal_Nil)
next
  case (Cons c cs)
  consider (minus) "c = CHR ''-''" | (plus) "c = CHR ''+''"
    | (none) "c \<noteq> CHR ''-''" "c \<noteq> CHR ''+''"
    by blast
  then show ?thesis
  proof cases
    case minus
    have val: "int_value s = - decimal cs" using Cons minus by (simp add: int_value_def)
    have litm: "int64_literal s \<longleftrightarrow> cs \<noteq> [] \<and> list_all is_digit cs \<and> decimal cs \<le> 2 ^ 63"
      unfolding Cons minus by (rule int64_literal_minus)
    have atm: "Atoi s = (if cs = [] then Inl ErrSyntax
      else case digits_loop cs 0 of
             Inl e \<Rightarrow> Inl e
           | Inr un \<Rightarrow> if 2 ^ 63 < un then Inl ErrRange else Inr (- un))"
      unfolding Cons minus by (rule Atoi_minus)
    show ?thesis
    proof (cases "digits_loop cs 0")
      case (Inl e)
      have "\<not> (cs \<noteq> [] \<and> list_all is_digit cs \<and> decimal cs \<le> 2 ^ 63)"
      proof
        assume a: "cs \<noteq> [] \<and> list_all is_digit cs \<and> decimal cs \<le> 2 ^ 63"
        then have "decimal cs < 2 ^ 64" by simp
        then have "digits_loop cs 0 = Inr (decimal cs)" using a by (simp add: digits_loop_0)
        then show False using Inl by simp
      qed
      then have "\<not> int64_literal s" unfolding litm .
      moreover have "Atoi s \<noteq> Inr v" using Inl by (simp add: atm)
      ultimately show ?thesis by simp
    next
      case (Inr un)
      then have un: "list_all is_digit cs" "un = decimal cs"
        by (simp_all add: digits_loop_0)
      have lit: "int64_literal s \<longleftrightarrow> cs \<noteq> [] \<and> decimal cs \<le> 2 ^ 63"
        using un(1) by (simp add: litm)
      have "Atoi s = (if cs = [] then Inl ErrSyntax
                      else if 2 ^ 63 < decimal cs then Inl ErrRange else Inr (- decimal cs))"
        using Inr un(2) by (simp add: atm)
      then show ?thesis unfolding lit val by auto
    qed
  next
    case plus
    have val: "int_value s = decimal cs" using Cons plus by (simp add: int_value_def)
    have litp: "int64_literal s \<longleftrightarrow> cs \<noteq> [] \<and> list_all is_digit cs \<and> decimal cs < 2 ^ 63"
      unfolding Cons plus by (rule int64_literal_plus)
    have atp: "Atoi s = (if cs = [] then Inl ErrSyntax
      else case digits_loop cs 0 of
             Inl e \<Rightarrow> Inl e
           | Inr un \<Rightarrow> if 2 ^ 63 \<le> un then Inl ErrRange else Inr un)"
      unfolding Cons plus by (rule Atoi_plus)
    show ?thesis
    proof (cases "digits_loop cs 0")
      case (Inl e)
      have "\<not> (cs \<noteq> [] \<and> list_all is_digit cs \<and> decimal cs < 2 ^ 63)"
      proof
        assume a: "cs \<noteq> [] \<and> list_all is_digit cs \<and> decimal cs < 2 ^ 63"
        then have "decimal cs < 2 ^ 64" by simp
        then have "digits_loop cs 0 = Inr (decimal cs)" using a by (simp add: digits_loop_0)
        then show False using Inl by simp
      qed
      then have "\<not> int64_literal s" unfolding litp .
      moreover have "Atoi s \<noteq> Inr v" using Inl by (simp add: atp)
      ultimately show ?thesis by simp
    next
      case (Inr un)
      then have un: "list_all is_digit cs" "un = decimal cs"
        by (simp_all add: digits_loop_0)
      have lit: "int64_literal s \<longleftrightarrow> cs \<noteq> [] \<and> decimal cs < 2 ^ 63"
        using un(1) by (simp add: litp)
      have "Atoi s = (if cs = [] then Inl ErrSyntax
                      else if 2 ^ 63 \<le> decimal cs then Inl ErrRange else Inr (decimal cs))"
        using Inr un(2) by (simp add: atp)
      then show ?thesis unfolding lit val by auto
    qed
  next
    case none
    have val: "int_value s = decimal s" using Cons none by (simp add: int_value_def)
    have litu: "int64_literal s \<longleftrightarrow> list_all is_digit s \<and> decimal s < 2 ^ 63"
      unfolding Cons by (rule int64_literal_unsigned [OF none])
    have at: "Atoi s = (case digits_loop s 0 of
        Inl e \<Rightarrow> Inl e
      | Inr un \<Rightarrow> if 2 ^ 63 \<le> un then Inl ErrRange else Inr un)"
      unfolding Cons by (rule Atoi_unsigned [OF none])
    show ?thesis
    proof (cases "digits_loop s 0")
      case (Inl e)
      have "\<not> (list_all is_digit s \<and> decimal s < 2 ^ 63)"
      proof
        assume a: "list_all is_digit s \<and> decimal s < 2 ^ 63"
        then have "decimal s < 2 ^ 64" by simp
        then have "digits_loop s 0 = Inr (decimal s)" using a by (simp add: digits_loop_0)
        then show False using Inl by simp
      qed
      then have "\<not> int64_literal s" unfolding litu .
      moreover have "Atoi s \<noteq> Inr v" using Inl by (simp add: at)
      ultimately show ?thesis by simp
    next
      case (Inr un)
      then have un: "list_all is_digit s" "un = decimal s"
        by (simp_all add: digits_loop_0)
      have lit: "int64_literal s \<longleftrightarrow> decimal s < 2 ^ 63"
        using un(1) by (simp add: litu)
      have "Atoi s = (if 2 ^ 63 \<le> decimal s then Inl ErrRange else Inr (decimal s))"
        using Inr un(2) by (simp add: at)
      then show ?thesis unfolding lit val by auto
    qed
  qed
qed

lemma Atoi_Inl: "(\<exists>e. Atoi s = Inl e) \<longleftrightarrow> \<not> int64_literal s"
proof -
  have "(\<exists>e. Atoi s = Inl e) \<longleftrightarrow> \<not> (\<exists>v. Atoi s = Inr v)"
    by (cases "Atoi s") auto
  then show ?thesis by (simp add: Atoi_Inr)
qed

lemma Split_length_four:
  "length (Split spec (CHR '','')) = 4 \<longleftrightarrow> (\<exists>a b c d. four_fields spec a b c d)"
proof
  assume "length (Split spec (CHR '','')) = 4"
  then obtain a b c d where "Split spec (CHR '','') = [a, b, c, d]"
    by (auto simp: length_Suc_conv numeral_eq_Suc)
  then show "\<exists>a b c d. four_fields spec a b c d" using Split_four by blast
next
  assume "\<exists>a b c d. four_fields spec a b c d"
  then obtain a b c d where "Split spec (CHR '','') = [a, b, c, d]" using Split_four by blast
  then show "length (Split spec (CHR '','')) = 4" by simp
qed

lemma applyCrop_fields:
  assumes "four_fields spec a b c d"
  shows "applyCrop L img spec =
     (case Atoi (TrimSpace a) of
           Inl e \<Rightarrow> Inl (InvalidLeft e)
         | Inr left \<Rightarrow>
          (case Atoi (TrimSpace b) of
             Inl e \<Rightarrow> Inl (InvalidTop e)
           | Inr top' \<Rightarrow>
            (case Atoi (TrimSpace c) of
               Inl e \<Rightarrow> Inl (InvalidCropWidth e)
             | Inr width \<Rightarrow>
              (case Atoi (TrimSpace d) of
                 Inl e \<Rightarrow> Inl (InvalidCropHeight e)
               | Inr height \<Rightarrow>
                  Inr (imaging_Crop L img
                         (Rect left top' (go_add left width) (go_add top' height)))))))"
proof -
  have s: "Split spec (CHR '','') = [a, b, c, d]" using assms Split_four by blast
  show ?thesis by (simp add: applyCrop_def s Let_def numeral_eq_Suc cong: sum.case_cong)
qed

lemma applyCrop_not_four:
  assumes "\<not> (\<exists>a b c d. four_fields spec a b c d)"
  shows "applyCrop L img spec = Inl CropFormat"
proof -
  have "length (Split spec (CHR '','')) \<noteq> 4" using assms Split_length_four by blast
  then show ?thesis by (simp add: applyCrop_def Let_def)
qed

lemma four_fields_unique:
  assumes "four_fields spec a b c d" "four_fields spec a' b' c' d'"
  shows "a' = a \<and> b' = b \<and> c' = c \<and> d' = d"
proof -
  have "Split spec (CHR '','') = [a, b, c, d]" "Split spec (CHR '','') = [a', b', c', d']"
    using assms Split_four by blast+
  then show ?thesis by simp
qed

lemma Atoi_literal: "int64_literal s \<Longrightarrow> Atoi s = Inr (int_value s)"
  by (simp add: Atoi_Inr)

lemma Atoi_not_literal: "\<not> int64_literal s \<Longrightarrow> \<exists>e. Atoi s = Inl e"
  by (simp add: Atoi_Inl)

text \<open>
  Claim C9, as the code has it. \<open>applyCrop\<close> accepts a specification exactly when it
  consists of four fields separated by commas, each of which, once the white space around
  it is removed, is an integer that a 64-bit \<open>int\<close> holds (from \<open>- 2 ^ 63\<close> to
  \<open>2 ^ 63 - 1\<close>). It then crops to the rectangle from \<open>(left, top)\<close> to
  \<open>(left + width, top + height)\<close> whatever the signs of the four values: negative and
  zero values are accepted. Every other string is rejected: with the format error when it
  does not have exactly three commas, and otherwise with the error that names the first
  field that is not such an integer.
\<close>

theorem applyCrop_four_int64s:
  "((\<exists>r. applyCrop L img spec = Inr r) \<longleftrightarrow> four_int64s spec)
   \<and> (\<forall>a b c d. four_fields spec a b c d
         \<and> int64_literal (TrimSpace a) \<and> int64_literal (TrimSpace b)
         \<and> int64_literal (TrimSpace c) \<and> int64_literal (TrimSpace d) \<longrightarrow>
        applyCrop L img spec =
          Inr (imaging_Crop L img
                 (Rect (int_value (TrimSpace a)) (int_value (TrimSpace b))
                       (go_add (int_value (TrimSpace a)) (int_value (TrimSpace c)))
                       (go_add (int_value (TrimSpace b)) (int_value (TrimSpace d))))))
   \<and> (count_list spec (CHR '','') \<noteq> 3 \<longrightarrow> applyCrop L img spec = Inl CropFormat)
   \<and> (\<forall>a b c d. four_fields spec a b c d \<longrightarrow>
        (\<not> int64_literal (TrimSpace a) \<longrightarrow> (\<exists>e. applyCrop L img spec = Inl (InvalidLeft e)))
      \<and> (int64_literal (TrimSpace a) \<and> \<not> int64_literal (TrimSpace b) \<longrightarrow>
           (\<exists>e. applyCrop L img spec = Inl (InvalidTop e)))
      \<and> (int64_literal (TrimSpace a) \<and> int64_literal (TrimSpace b)
           \<and> \<not> int64_literal (TrimSpace c) \<longrightarrow>
           (\<exists>e. applyCrop L img spec = Inl (InvalidCropWidth e)))
      \<and> (int64_literal (TrimSpace a) \<and> int64_literal (TrimSpace b)
           \<and> int64_literal (TrimSpace c) \<and> \<not> int64_literal (TrimSpace d) \<longrightarrow>
           (\<exists>e. applyCrop L img spec = Inl (InvalidCropHeight e))))"
proof -
  have ok: "applyCrop L img spec =
          Inr (imaging_Crop L img
                 (Rect (int_value (TrimSpace a)) (int_value (TrimSpace b))
                       (go_add (int_value (TrimSpace a)) (int_value (TrimSpace c)))
                       (go_add (int_value (TrimSpace b)) (int_value (TrimSpace d)))))"
    if "four_fields spec a b c d" "int64_literal (TrimSpace a)" "int64_literal (TrimSpace b)"
       "int64_literal (TrimSpace c)" "int64_literal (TrimSpace d)" for a b c d
    using that by (simp add: applyCrop_fields Atoi_literal)
  have bad1: "\<exists>e. applyCrop L img spec = Inl (InvalidLeft e)"
    if f: "four_fields spec a b c d" and n: "\<not> int64_literal (TrimSpace a)" for a b c d
  proof -
    obtain e where "Atoi (TrimSpace a) = Inl e" using Atoi_not_literal [OF n] by blast
    then show ?thesis using f by (simp add: applyCrop_fields)
  qed
  have bad2: "\<exists>e. applyCrop L img spec = Inl (InvalidTop e)"
    if f: "four_fields spec a b c d" and la: "int64_literal (TrimSpace a)"
      and n: "\<not> int64_literal (TrimSpace b)" for a b c d
  proof -
    obtain e where "Atoi (TrimSpace b) = Inl e" using Atoi_not_literal [OF n] by blast
    then show ?thesis using f la by (simp add: applyCrop_fields Atoi_literal)
  qed
  have bad3: "\<exists>e. applyCrop L img spec = Inl (InvalidCropWidth e)"
    if f: "four_fields spec a b c d" and la: "int64_literal (TrimSpace a)"
      and lb: "int64_literal (TrimSpace b)" and n: "\<not> int64_literal (TrimSpace c)" for a b c d
  proof -
    obtain e where "Atoi (TrimSpace c) = Inl e" using Atoi_not_literal [OF n] by blast
    then show ?thesis using f la lb by (simp add: applyCrop_fields Atoi_literal)
  qed
  have bad4: "\<exists>e. applyCrop L img spec = Inl (InvalidCropHeight e)"
    if f: "four_fields spec a b c d" and la: "int64_literal (TrimSpace a)"
      and lb: "int64_literal (TrimSpace b)" and lc: "int64_literal (TrimSpace c)"
      and n: "\<not> int64_literal (TrimSpace d)" for a b c d
  proof -
    obtain e where "Atoi (TrimSpace d) = Inl e" using Atoi_not_literal [OF n] by blast
    then show ?thesis using f la lb lc by (simp add: applyCrop_fields Atoi_literal)
  qed
  have fmt: "applyCrop L img spec = Inl CropFormat" if "count_list spec (CHR '','') \<noteq> 3"
  proof -
    have "length (Split spec (CHR '','')) \<noteq> 4" using that by (simp add: length_Split)
    then show ?thesis by (simp add: applyCrop_def Let_def)
  qed
  have iff: "(\<exists>r. applyCrop L img spec = Inr r) \<longleftrightarrow> four_int64s spec"
  proof
    assume r: "\<exists>r. applyCrop L img spec = Inr r"
    show "four_int64s spec"
    proof (rule ccontr)
      assume n: "\<not> four_int64s spec"
      show False
      proof (cases "\<exists>a b c d. four_fields spec a b c d")
        case False
        then show False using r applyCrop_not_four [OF False, of L img] by simp
      next
        case True
        then obtain a b c d where f: "four_fields spec a b c d" by blast
        then have "\<not> (int64_literal (TrimSpace a) \<and> int64_literal (TrimSpace b)
            \<and> int64_literal (TrimSpace c) \<and> int64_literal (TrimSpace d))"
          using n unfolding four_int64s_def by blast
        then have "\<exists>e. applyCrop L img spec = Inl e"
          using bad1 [OF f] bad2 [OF f] bad3 [OF f] bad4 [OF f] by blast
        then show False using r by auto
      qed
    qed
  next
    assume "four_int64s spec"
    then show "\<exists>r. applyCrop L img spec = Inr r"
      unfolding four_int64s_def using ok by blast
  qed
  have c2: "\<forall>a b c d. four_fields spec a b c d
         \<and> int64_literal (TrimSpace a) \<and> int64_literal (TrimSpace b)
         \<and> int64_literal (TrimSpace c) \<and> int64_literal (TrimSpace d) \<longrightarrow>
        applyCrop L img spec =
          Inr (imaging_Crop L img
                 (Rect (int_value (TrimSpace a)) (int_value (TrimSpace b))
                       (go_add (int_value (TrimSpace a)) (int_value (TrimSpace c)))
                       (go_add (int_value (TrimSpace b)) (int_value (TrimSpace d)))))"
    using ok by blast
  have c3: "count_list spec (CHR '','') \<noteq> 3 \<longrightarrow> applyCrop L img spec = Inl CropFormat"
    using fmt by blast
  have c4: "\<forall>a b c d. four_fields spec a b c d \<longrightarrow>
        (\<not> int64_literal (TrimSpace a) \<longrightarrow> (\<exists>e. applyCrop L img spec = Inl (InvalidLeft e)))
      \<and> (int64_literal (TrimSpace a) \<and> \<not> int64_literal (TrimSpace b) \<longrightarrow>
           (\<exists>e. applyCrop L img spec = Inl (InvalidTop e)))
      \<and> (int64_literal (TrimSpace a) \<and> int64_literal (TrimSpace b)
           \<and> \<not> int64_literal (TrimSpace c) \<longrightarrow>
           (\<exists>e. applyCrop L img spec = Inl (InvalidCropWidth e)))
      \<and> (int64_literal (TrimSpace a) \<and> int64_literal (TrimSpace b)
           \<and> int64_literal (TrimSpace c) \<and> \<not> int64_literal (TrimSpace d) \<longrightarrow>
           (\<exists>e. applyCrop L img spec = Inl (InvalidCropHeight e)))"
    using bad1 bad2 bad3 bad4 by blast
  show ?thesis using iff c2 c3 c4 by (intro conjI)
qed

lemma TrimSpace_examples:
  "TrimSpace ''-5'' = ''-5''" "TrimSpace '' 0'' = ''0''" "TrimSpace ''0'' = ''0''"
  "TrimSpace ''-3'' = ''-3''"
  by code_simp+

lemma int64_literal_examples:
  "int64_literal ''-5''" "int64_literal ''0''" "int64_literal ''-3''"
  by (simp_all add: int64_literal_minus int64_literal_unsigned decimal_def is_digit_def digit_val_def)

lemma int_value_examples:
  "int_value ''-5'' = - 5" "int_value ''0'' = 0" "int_value ''-3'' = - 3"
  by (simp_all add: int_value_def decimal_def digit_val_def)

theorem applyCrop_four_int64s_witness:
  "applyCrop example_lib (solid 10 20 (NRGBA 0 0 0 255)) ''-5, 0,0,-3'' =
     Inr (imaging_Crop example_lib (solid 10 20 (NRGBA 0 0 0 255)) (Rect (- 5) 0 (- 5) (- 3)))
   \<and> applyCrop example_lib (solid 10 20 (NRGBA 0 0 0 255)) ''-5, 0,0'' = Inl CropFormat"
proof -
  note T = applyCrop_four_int64s
    [of example_lib "solid 10 20 (NRGBA 0 0 0 255)" "''-5, 0,0,-3''"]
  note U = applyCrop_four_int64s
    [of example_lib "solid 10 20 (NRGBA 0 0 0 255)" "''-5, 0,0''"]
  have f: "four_fields ''-5, 0,0,-3'' ''-5'' '' 0'' ''0'' ''-3''"
    by (simp add: four_fields_def)
  have l: "int64_literal (TrimSpace ''-5'')" "int64_literal (TrimSpace '' 0'')"
    "int64_literal (TrimSpace ''0'')" "int64_literal (TrimSpace ''-3'')"
    by (simp_all only: TrimSpace_examples int64_literal_examples)
  have "applyCrop example_lib (solid 10 20 (NRGBA 0 0 0 255)) ''-5, 0,0,-3'' =
          Inr (imaging_Crop example_lib (solid 10 20 (NRGBA 0 0 0 255))
                 (Rect (int_value (TrimSpace ''-5'')) (int_value (TrimSpace '' 0''))
                       (go_add (int_value (TrimSpace ''-5'')) (int_value (TrimSpace ''0'')))
                       (go_add (int_value (TrimSpace '' 0'')) (int_value (TrimSpace ''-3'')))))"
    using T f l by blast
  then have a: "applyCrop example_lib (solid 10 20 (NRGBA 0 0 0 255)) ''-5, 0,0,-3'' =
     Inr (imaging_Crop example_lib (solid 10 20 (NRGBA 0 0 0 255)) (Rect (- 5) 0 (- 5) (- 3)))"
    by (simp add: TrimSpace_examples int_value_examples go_add_id)
  have "count_list ''-5, 0,0'' (CHR '','') \<noteq> 3" by simp
  then have b: "applyCrop example_lib (solid 10 20 (NRGBA 0 0 0 255)) ''-5, 0,0'' = Inl CropFormat"
    using U by blast
  show ?thesis using a b by (rule conjI)
qed

lemma TrimSpace_large:
  "TrimSpace ''9223372036854775808'' = ''9223372036854775808''"
  by code_simp

lemma Atoi_large: "Atoi ''9223372036854775808'' = Inl ErrRange"
  by code_simp

lemma Atoi_zero: "Atoi ''0'' = Inr 0"
  by code_simp

theorem applyCrop_four_int64s_counterexample:
  "four_integers ''0,0,0,9223372036854775808''
   \<and> four_fields ''0,0,0,9223372036854775808'' ''0'' ''0'' ''0'' ''9223372036854775808''
   \<and> integer_literal ''0'' \<and> integer_literal ''9223372036854775808''
   \<and> int_value ''9223372036854775808'' = 2 ^ 63
   \<and> applyCrop example_lib (solid 10 20 (NRGBA 0 0 0 255)) ''0,0,0,9223372036854775808''
       = Inl (InvalidCropHeight ErrRange)"
proof -
  have f: "four_fields ''0,0,0,9223372036854775808'' ''0'' ''0'' ''0'' ''9223372036854775808''"
    by (simp add: four_fields_def)
  have t: "TrimSpace ''0'' = ''0''" by (rule TrimSpace_examples)
  have l: "integer_literal ''0''" "integer_literal ''9223372036854775808''"
    by (simp_all add: integer_literal_def is_digit_def)
  have v: "int_value ''9223372036854775808'' = 2 ^ 63"
    by (simp add: int_value_def decimal_def digit_val_def)
  have four: "four_integers ''0,0,0,9223372036854775808''"
    unfolding four_integers_def
    by (rule exI [of _ "''0''"], rule exI [of _ "''0''"], rule exI [of _ "''0''"],
        rule exI [of _ "''9223372036854775808''"])
       (simp only: f t TrimSpace_large l simp_thms)
  have "applyCrop example_lib (solid 10 20 (NRGBA 0 0 0 255)) ''0,0,0,9223372036854775808''
       = Inl (InvalidCropHeight ErrRange)"
    by (simp add: applyCrop_fields [OF f] t TrimSpace_large Atoi_large Atoi_zero)
  then show ?thesis using four f l v by simp
qed

subsection \<open>The order of operations\<close>

lemma run_operations_skip:
  "\<not> is_set op \<Longrightarrow> run_operations L (filter is_set (op # ops)) img =
     run_operations L (filter is_set ops) img"
  by simp

lemma run_operations_requested:
  "run_operations L (requested_ops opts) src =
     (case (if Crop opts \<noteq> []
            then (case applyCrop L src (Crop opts) of
                    Inl e \<Rightarrow> Inl (CropFailed e)
                  | Inr r \<Rightarrow> Inr r)
            else Inr src) of
        Inl e \<Rightarrow> Inl e
      | Inr result1 \<Rightarrow>
         (case (if Resize opts \<noteq> []
                then (case applyResize L result1 (Resize opts) (Fit opts) of
                        Inl e \<Rightarrow> Inl (ResizeFailed e)
                      | Inr r \<Rightarrow> Inr r)
                else Inr result1) of
            Inl e \<Rightarrow> Inl e
          | Inr result2 \<Rightarrow>
             (let result3 = (if Rotate opts \<noteq> 0
                             then imaging_Rotate L result2 (f_of_int (Rotate opts))
                             else result2);
                  result4 = (if Flip opts then imaging_FlipV L result3 else result3);
                  result5 = (if Flop opts then imaging_FlipH L result4 else result4)
              in Inr result5)))"
  by (simp add: requested_ops_def fixed_order_def Let_def split: sum.splits)

text \<open>
  Claim C8. \<open>Transform\<close> opens the input and applies to it the requested operations, in
  the fixed order crop, resize, rotate, flip (vertical), flop (horizontal), leaving out
  exactly those whose parameter is unset, zero or false. When an operation fails the call
  returns its error and writes nothing. Otherwise it saves the resulting raster and,
  when the directory and the file could be written, returns the width and the height of
  that raster and the format tag: the extension of the output path without its dot.
\<close>

theorem Transform_fixed_order:
  "Transform L w inputPath outputPath opts =
     (case imaging_Open w inputPath of
        Inl e \<Rightarrow> (Inl e, w)
      | Inr src \<Rightarrow>
         (case run_operations L (requested_ops opts) src of
            Inl e \<Rightarrow> (Inl e, w)
          | Inr result \<Rightarrow>
             (case (if path_Dir L outputPath \<noteq> [] \<and> path_Dir L outputPath \<noteq> ''.''
                    then os_MkdirAll L w (path_Dir L outputPath) else Inr w) of
                Inl e \<Rightarrow> (Inl e, w)
              | Inr w1 \<Rightarrow>
                 (case imaging_Save L w1 result outputPath of
                    (Some e, w2) \<Rightarrow> (Inl e, w2)
                  | (None, w2) \<Rightarrow>
                     (Inr \<lparr>RWidth = Dx (Bounds result), RHeight = Dy (Bounds result),
                           RFormat = TrimPrefix (path_Ext L outputPath) ''.''\<rparr>, w2)))))"
  unfolding Transform_def run_operations_requested
  by (simp add: Let_def split: sum.splits)

lemma applyCrop_example:
  "applyCrop L img ''1,2,3,4'' = Inr (imaging_Crop L img (Rect 1 2 4 6))"
proof -
  have f: "four_fields ''1,2,3,4'' ''1'' ''2'' ''3'' ''4''" by (simp add: four_fields_def)
  have t: "TrimSpace ''1'' = ''1''" "TrimSpace ''2'' = ''2''" "TrimSpace ''3'' = ''3''"
    "TrimSpace ''4'' = ''4''" by code_simp+
  have l: "int64_literal ''1''" "int64_literal ''2''" "int64_literal ''3''" "int64_literal ''4''"
    by (simp_all add: int64_literal_unsigned decimal_def is_digit_def digit_val_def)
  have v: "int_value ''1'' = 1" "int_value ''2'' = 2" "int_value ''3'' = 3" "int_value ''4'' = 4"
    by (simp_all add: int_value_def decimal_def digit_val_def)
  show ?thesis
    by (simp add: applyCrop_fields [OF f] t Atoi_literal l v go_add_id)
qed

theorem Transform_fixed_order_witness:
  "fst (Transform example_lib example_world ''a.png'' ''out.png''
          \<lparr>Resize = [], Fit = [], Crop = ''1,2,3,4'', Rotate = 90, Flip = True, Flop = False\<rparr>)
     = Inr \<lparr>RWidth = 3, RHeight = 4, RFormat = ''png''\<rparr>"
proof -
  define opts where "opts =
    \<lparr>Resize = [], Fit = [], Crop = ''1,2,3,4'', Rotate = 90, Flip = True, Flop = False\<rparr>"
  note T = Transform_fixed_order [of example_lib example_world "''a.png''" "''out.png''" opts]
  have ops: "requested_ops opts = [OpCrop ''1,2,3,4'', OpRotate 90, OpFlip True]"
    by (simp add: requested_ops_def fixed_order_def opts_def)
  have run: "run_operations example_lib (requested_ops opts) (solid 10 20 (NRGBA 0 0 0 255)) =
      Inr (NewNRGBA (Rect 1 2 4 6))"
    unfolding ops by (simp add: applyCrop_example) (simp add: example_lib_def)
  have sv: "imaging_Save example_lib w img p = (None, w\<lparr>Files := (Files w)(p \<mapsto> ImageFile img)\<rparr>)"
    for w img p
    by (simp add: imaging_Save_def example_lib_def)
  have ext: "TrimPrefix (path_Ext example_lib ''out.png'') ''.'' = ''png''"
    by (simp add: example_lib_def TrimPrefix_def HasPrefix_def)
  have d: "Dx (Bounds (NewNRGBA (Rect 1 2 4 6))) = 3" "Dy (Bounds (NewNRGBA (Rect 1 2 4 6))) = 4"
    by (simp_all add: NewNRGBA_def Rect_def Dx_def Dy_def Pt_def go_sub_id)
  have "fst (Transform example_lib example_world ''a.png'' ''out.png'' opts)
     = Inr \<lparr>RWidth = 3, RHeight = 4, RFormat = ''png''\<rparr>"
    unfolding T by (simp add: example_open run path_Dir_example sv ext d)
  then show ?thesis unfolding opts_def .
qed

subsection \<open>Pixels that are not opaque\<close>

lemma parseColor_black: "parseColor L ''black'' = Inr (RGBA 0 0 0 255)"
  by (simp add: parseColor_def ToLower_def ascii_lower_def Let_def)

lemma translucent_open:
  "imaging_Open translucent_world ''grey.png'' = Inr (solid 1 1 (NRGBA 200 200 200 5))"
  "imaging_Open translucent_world ''red.png'' = Inr (solid 1 1 (NRGBA 255 0 0 128))"
  by (simp_all add: imaging_Open_def translucent_world_def)

lemma Bounds_one_pixel:
  "Bounds (solid 1 1 c) = \<lparr>Min_pt = \<lparr>X = 0, Y = 0\<rparr>, Max_pt = \<lparr>X = 1, Y = 1\<rparr>\<rparr>"
  by (simp add: solid_def Rect_def Pt_def)

lemma pixel_loop_one_pixel:
  "pixel_loop (solid 1 1 c) t tol res = pixel_step (solid 1 1 c) t tol 0 0 res"
  by (simp add: pixel_loop_def Bounds_one_pixel Let_def)

lemma At_one_pixel: "At (solid 1 1 c) 0 0 = c"
  by (simp add: At_def Bounds_one_pixel pt_in_def) (simp add: solid_def)

lemma RGBA_grey:
  "NRGBA_RGBA (NRGBA 200 200 200 5) = (1007, 1007, 1007, 1285)"
  by (simp add: NRGBA_RGBA_def premul_def NRGBA_def Let_def)

lemma RGBA_red:
  "NRGBA_RGBA (NRGBA 255 0 0 128) = (32896, 0, 0, 32896)"
  by (simp add: NRGBA_RGBA_def premul_def NRGBA_def Let_def)

lemma high_bytes:
  "(ucast (drop_bit 8 (1007 :: 32 word)) :: 8 word) = 3"
  "(ucast (drop_bit 8 (1285 :: 32 word)) :: 8 word) = 5"
  "(ucast (drop_bit 8 (32896 :: 32 word)) :: 8 word) = 128"
  "(ucast (drop_bit 8 (0 :: 32 word)) :: 8 word) = 0"
  by simp_all

lemma distances:
  "colorDistance 3 3 3 (RGBA 0 0 0 255) = 9"
  "colorDistance 200 200 200 (RGBA 0 0 0 255) = 40000"
  "tolerance_threshold 10 = 51 / 2"
  by code_simp+

lemma within_tolerance:
  "colorDistance 3 3 3 (RGBA 0 0 0 255) \<le> tolerance_threshold 10"
  "\<not> colorDistance 200 200 200 (RGBA 0 0 0 255) \<le> tolerance_threshold 10"
  "\<not> colorDistance 128 0 0 (RGBA 255 255 255 255) \<le> tolerance_threshold 10"
  "\<not> colorDistance 255 0 0 (RGBA 255 255 255 255) \<le> tolerance_threshold 10"
  by code_simp+

lemma pixel_step_grey:
  "pixel_step (solid 1 1 (NRGBA 200 200 200 5)) (RGBA 0 0 0 255) (tolerance_threshold 10) 0 0 res =
     SetNRGBA res 0 0 (NRGBA 3 3 3 0)"
  by (simp add: pixel_step_def At_one_pixel RGBA_grey high_bytes within_tolerance Let_def)

lemma pixel_step_red:
  "pixel_step (solid 1 1 (NRGBA 255 0 0 128)) (RGBA 255 255 255 255) (tolerance_threshold 10) 0 0 res =
     SetNRGBA res 0 0 (NRGBA 128 0 0 128)"
  by (simp add: pixel_step_def At_one_pixel RGBA_red high_bytes within_tolerance Let_def)

lemma Dx_Dy_one_pixel: "Dx (Bounds (solid 1 1 c)) = 1" "Dy (Bounds (solid 1 1 c)) = 1"
  by (simp_all add: Dx_solid Dy_solid)


lemma one_pixel_frame:
  "Dx (Bounds (SetNRGBA (NewNRGBA (Bounds (solid 1 1 c))) 0 0 d)) = 1"
  "Dy (Bounds (SetNRGBA (NewNRGBA (Bounds (solid 1 1 c))) 0 0 d)) = 1"
  by (simp_all add: Bounds_SetNRGBA NewNRGBA_def Dx_Dy_one_pixel)

text \<open>
  Claim C1. The claim fails on a pixel that is not opaque. The image holds one pixel
  \<open>(200, 200, 200)\<close> of alpha 5; the target is black and the tolerance 10, so the
  threshold is 25.5 and the distance of the pixel from black, 40000, is far above it.
  \<open>MakeTransparent\<close> nevertheless sets the alpha of the pixel to zero, and it stores
  \<open>(3, 3, 3)\<close>, not the channels of the pixel: it compares and stores the channels
  multiplied by alpha that \<open>RGBA()\<close> returns.
\<close>

theorem MakeTransparent_translucent_grey:
  "MakeTransparent example_lib translucent_world ''grey.png'' ''out.png''
       (Some \<lparr>Color = ''black'', Tolerance = 10\<rparr>) =
     (Inr \<lparr>TWidth = 1, THeight = 1\<rparr>,
      translucent_world\<lparr>Files := (Files translucent_world)(''out.png'' \<mapsto>
         ImageFile (SetNRGBA (NewNRGBA (Bounds (solid 1 1 (NRGBA 200 200 200 5)))) 0 0
                      (NRGBA 3 3 3 0)))\<rparr>)
   \<and> At (solid 1 1 (NRGBA 200 200 200 5)) 0 0 = NRGBA 200 200 200 5
   \<and> At (SetNRGBA (NewNRGBA (Bounds (solid 1 1 (NRGBA 200 200 200 5)))) 0 0 (NRGBA 3 3 3 0)) 0 0
       = NRGBA 3 3 3 0
   \<and> colorDistance 200 200 200 (RGBA 0 0 0 255) = 40000
   \<and> tolerance_threshold 10 = 51 / 2"
proof -
  have "MakeTransparent example_lib translucent_world ''grey.png'' ''out.png''
       (Some \<lparr>Color = ''black'', Tolerance = 10\<rparr>) =
     (Inr \<lparr>TWidth = 1, THeight = 1\<rparr>,
      translucent_world\<lparr>Files := (Files translucent_world)(''out.png'' \<mapsto>
         ImageFile (SetNRGBA (NewNRGBA (Bounds (solid 1 1 (NRGBA 200 200 200 5)))) 0 0
                      (NRGBA 3 3 3 0)))\<rparr>)"
    by (simp add: MakeTransparent_def parseColor_black translucent_open Let_def
          path_Dir_example os_Create_def png_Encode_def pixel_loop_one_pixel pixel_step_grey
          one_pixel_frame Dx_Dy_one_pixel example_lib_def)
  moreover have "At (SetNRGBA (NewNRGBA (Bounds (solid 1 1 (NRGBA 200 200 200 5)))) 0 0
      (NRGBA 3 3 3 0)) 0 0 = NRGBA 3 3 3 0"
    by (simp add: At_def SetNRGBA_def NewNRGBA_def Bounds_one_pixel pt_in_def)
  ultimately show ?thesis by (simp add: At_one_pixel distances)
qed

text \<open>
  Claim C2. The claim fails on a pixel that is not opaque. The image holds one red pixel
  \<open>(255, 0, 0)\<close> of alpha 128; with the default options (white, tolerance 10) the pixel
  is not within tolerance of the target, neither by its own channels nor by the ones the
  code compares. \<open>MakeTransparent\<close> keeps its alpha and stores \<open>(128, 0, 0)\<close>: the
  channels multiplied by alpha, not the original colour.
\<close>

theorem MakeTransparent_translucent_red:
  "MakeTransparent example_lib translucent_world ''red.png'' ''out.png'' None =
     (Inr \<lparr>TWidth = 1, THeight = 1\<rparr>,
      translucent_world\<lparr>Files := (Files translucent_world)(''out.png'' \<mapsto>
         ImageFile (SetNRGBA (NewNRGBA (Bounds (solid 1 1 (NRGBA 255 0 0 128)))) 0 0
                      (NRGBA 128 0 0 128)))\<rparr>)
   \<and> At (solid 1 1 (NRGBA 255 0 0 128)) 0 0 = NRGBA 255 0 0 128
   \<and> At (SetNRGBA (NewNRGBA (Bounds (solid 1 1 (NRGBA 255 0 0 128)))) 0 0 (NRGBA 128 0 0 128)) 0 0
       = NRGBA 128 0 0 128
   \<and> \<not> colorDistance 255 0 0 (RGBA 255 255 255 255) \<le> tolerance_threshold 10
   \<and> \<not> colorDistance 128 0 0 (RGBA 255 255 255 255) \<le> tolerance_threshold 10"
proof -
  have "MakeTransparent example_lib translucent_world ''red.png'' ''out.png'' None =
     (Inr \<lparr>TWidth = 1, THeight = 1\<rparr>,
      translucent_world\<lparr>Files := (Files translucent_world)(''out.png'' \<mapsto>
         ImageFile (SetNRGBA (NewNRGBA (Bounds (solid 1 1 (NRGBA 255 0 0 128)))) 0 0
                      (NRGBA 128 0 0 128)))\<rparr>)"
    by (simp add: MakeTransparent_def parseColor_white translucent_open Let_def
          path_Dir_example os_Create_def png_Encode_def pixel_loop_one_pixel pixel_step_red
          one_pixel_frame Dx_Dy_one_pixel example_lib_def)
  moreover have "At (SetNRGBA (NewNRGBA (Bounds (solid 1 1 (NRGBA 255 0 0 128)))) 0 0
      (NRGBA 128 0 0 128)) 0 0 = NRGBA 128 0 0 128"
    by (simp add: At_def SetNRGBA_def NewNRGBA_def Bounds_one_pixel pt_in_def)
  ultimately show ?thesis by (simp add: At_one_pixel within_tolerance)
qed

end
